theory Spec2Isabelle
  imports Complex_Main "HOL-Library.Word"
begin

unbundle bit_operations_syntax

section \<open>The stealth patch (stealth\_patch.js) as a function on a host environment\<close>

text \<open>
  The script is one immediately invoked function that monkey-patches objects of the
  browser engine. The engine is not part of the repository, so the host objects the
  script touches are the state of the model, and the engine's native methods are
  fields of that state (functions), which the script replaces by its wrappers.
  A thrown exception is a value: a block of statements returns \<open>Some e\<close> when it
  stopped at a throw of \<open>e\<close>, together with the state reached so far.
\<close>

subsection \<open>JavaScript values, errors and objects\<close>

datatype js_error = TypeError | ReferenceError | HostError string

datatype js_value =
    JUndefined
  | JNull
  | JBool bool
  | JNum int
  | JStr string
  | JArr "js_value list"
  | JObj "(string \<times> js_value) list"
  | JFun js_value \<comment> \<open>a function of no parameter that returns the value\<close>

fun truthy :: "js_value \<Rightarrow> bool" where
  "truthy JUndefined = False"
| "truthy JNull = False"
| "truthy (JBool b) = b"
| "truthy (JNum n) = (n \<noteq> 0)"
| "truthy (JStr s) = (s \<noteq> [])"
| "truthy (JArr xs) = True"
| "truthy (JObj fs) = True"
| "truthy (JFun v) = True"

text \<open>\<open>v.length\<close> and \<open>v.name\<close> of a truthy value (the script reads them behind \<open>&&\<close>).\<close>

fun js_length :: "js_value \<Rightarrow> js_value" where
  "js_length (JArr xs) = JNum (int (length xs))"
| "js_length (JStr s) = JNum (int (length s))"
| "js_length (JObj fs) = (case map_of fs ''length'' of Some v \<Rightarrow> v | None \<Rightarrow> JUndefined)"
| "js_length (JFun v) = JNum 0"
| "js_length v = JUndefined"

fun js_name :: "js_value \<Rightarrow> js_value" where
  "js_name (JObj fs) = (case map_of fs ''name'' of Some v \<Rightarrow> v | None \<Rightarrow> JUndefined)"
| "js_name (JFun v) = JStr []"
| "js_name v = JUndefined"

text \<open>
  An object is its own properties in creation order, as \<open>Object.getOwnPropertyNames\<close>
  lists them. A property is the value that reading it gives and its
  \<open>configurable\<close> attribute.
\<close>

record js_prop =
  pval :: js_value
  configurable :: bool

record js_object =
  props :: "(string \<times> js_prop) list"
  extensible :: bool

fun update_prop :: "string \<Rightarrow> js_prop \<Rightarrow> (string \<times> js_prop) list \<Rightarrow> (string \<times> js_prop) list" where
  "update_prop n p [] = [(n, p)]"
| "update_prop n p (q # qs) = (if fst q = n then (n, p) # qs else q # update_prop n p qs)"

text \<open>
  \<open>Object.defineProperty(obj, prop, {get: () => value, configurable})\<close> (and the
  \<open>{value, configurable: true}\<close> of the marker): a property that is not configurable
  rejects the new descriptor, an object that is not extensible rejects a new property.
\<close>

definition defineProperty :: "js_object \<Rightarrow> string \<Rightarrow> js_value \<Rightarrow> bool \<Rightarrow> js_error + js_object" where
  "defineProperty ob n v cfg =
     (case map_of (props ob) n of
        Some p \<Rightarrow>
          if configurable p
          then Inr (ob\<lparr>props := update_prop n \<lparr>pval = v, configurable = cfg\<rparr> (props ob)\<rparr>)
          else Inl TypeError
      | None \<Rightarrow>
          if extensible ob
          then Inr (ob\<lparr>props := update_prop n \<lparr>pval = v, configurable = cfg\<rparr> (props ob)\<rparr>)
          else Inl TypeError)"

text \<open>
  \<^verbatim>\<open>const safeDefine = (obj, prop, value, configurable = true) => {
    try { Object.defineProperty(obj, prop, { get: () => value, configurable }); } catch (e) {} };\<close>
\<close>

definition safeDefine :: "js_object \<Rightarrow> string \<Rightarrow> js_value \<Rightarrow> bool \<Rightarrow> js_object" where
  "safeDefine ob n v cfg = (case defineProperty ob n v cfg of Inl e \<Rightarrow> ob | Inr ob' \<Rightarrow> ob')"

text \<open>
  \<open>delete obj[k]\<close> in strict code (the script starts with \<open>'use strict'\<close>): a property
  that is not configurable makes it throw a TypeError; a missing property is no error.
\<close>

definition delete_prop :: "js_object \<Rightarrow> string \<Rightarrow> js_error + js_object" where
  "delete_prop ob k =
     (case map_of (props ob) k of
        None \<Rightarrow> Inr ob
      | Some p \<Rightarrow>
          if configurable p then Inr (ob\<lparr>props := filter (\<lambda>q. fst q \<noteq> k) (props ob)\<rparr>)
          else Inl TypeError)"

text \<open>\<^verbatim>\<open>try { delete window[k]; } catch (e) {}\<close>\<close>

definition try_delete :: "js_object \<Rightarrow> string \<Rightarrow> js_object" where
  "try_delete ob k = (case delete_prop ob k of Inl e \<Rightarrow> ob | Inr ob' \<Rightarrow> ob')"

definition own_names :: "js_object \<Rightarrow> string list" where
  "own_names ob = map fst (props ob)"

text \<open>
  Two attributes of a name on an object: \<open>locked\<close>, an own property that is not
  configurable (it can be neither deleted nor redefined); \<open>definable\<close>, a name that
  \<open>Object.defineProperty\<close> accepts.
\<close>

definition locked :: "js_object \<Rightarrow> string \<Rightarrow> bool" where
  "locked ob k = (case map_of (props ob) k of None \<Rightarrow> False | Some p \<Rightarrow> \<not> configurable p)"

definition definable :: "js_object \<Rightarrow> string \<Rightarrow> bool" where
  "definable ob k = (case map_of (props ob) k of None \<Rightarrow> extensible ob | Some p \<Rightarrow> configurable p)"

text \<open>
  A name is \<open>settled\<close> at a value when defining it (configurable) changes nothing:
  the definition is rejected, or the property is already that getter.
\<close>

definition settled :: "js_object \<Rightarrow> string \<Rightarrow> js_value \<Rightarrow> bool" where
  "settled ob n v \<longleftrightarrow>
     \<not> definable ob n \<or> map_of (props ob) n = Some \<lparr>pval = v, configurable = True\<rparr>"

subsection \<open>Host objects: canvas, WebGL, audio, permissions\<close>

type_synonym u8 = "8 word"

text \<open>
  A canvas element with its 2D rendering context. This part is the engine's behaviour
  (the HTML canvas drawing model), not repository code. The state of the context that
  a fill depends on is its fill style, its composite operation
  (\<open>globalCompositeOperation\<close>) and its clipping region (which pixels are inside).
  \<open>getContext('2d')\<close> creates the 2D context of a canvas that has none, in the default
  state, and gives null on a canvas bound to another context type.
\<close>

datatype ctx_mode = NoContext | Context2D | OtherContext

datatype colour = RGBA nat nat nat nat

datatype composite_op =
    SourceOver | SourceIn | SourceOut | SourceAtop
  | DestinationOver | DestinationIn | DestinationOut | DestinationAtop
  | Lighter | Copy | Xor

record canvas =
  ctx_mode :: ctx_mode
  fill_style :: colour
  composite :: composite_op
  clip :: "nat \<Rightarrow> bool" \<comment> \<open>the clipping region, by pixel index\<close>
  cwidth :: nat
  cheight :: nat
  bitmap :: "u8 list" \<comment> \<open>the flattened RGBA stream\<close>

definition getContext2d :: "canvas \<Rightarrow> bool \<times> canvas" where
  "getContext2d c =
     (case ctx_mode c of
        NoContext \<Rightarrow>
          (True, c\<lparr>ctx_mode := Context2D, fill_style := RGBA 0 0 0 255,
                    composite := SourceOver, clip := (\<lambda>p. True)\<rparr>)
      | Context2D \<Rightarrow> (True, c)
      | OtherContext \<Rightarrow> (False, c))"

text \<open>
  Porter-Duff compositing of a source pixel with a destination pixel, in units of 1/255:
  \<open>weights op sa da\<close> are the shares of the source and of the destination in the
  result, for the source alpha \<open>sa\<close> and the destination alpha \<open>da\<close>. A pixel whose
  source has no share and whose destination keeps its whole alpha is not written.
  (The rounding of a source that is neither transparent nor opaque is the engine's.)
\<close>

fun weights :: "composite_op \<Rightarrow> nat \<Rightarrow> nat \<Rightarrow> nat \<times> nat" where
  "weights SourceOver sa da = (sa, da * (255 - sa) div 255)"
| "weights SourceIn sa da = (sa * da div 255, 0)"
| "weights SourceOut sa da = (sa * (255 - da) div 255, 0)"
| "weights SourceAtop sa da = (sa * da div 255, da * (255 - sa) div 255)"
| "weights DestinationOver sa da = (sa * (255 - da) div 255, da)"
| "weights DestinationIn sa da = (0, da * sa div 255)"
| "weights DestinationOut sa da = (0, da * (255 - sa) div 255)"
| "weights DestinationAtop sa da = (sa * (255 - da) div 255, da * sa div 255)"
| "weights Lighter sa da = (sa, da)"
| "weights Copy sa da = (sa, 0)"
| "weights Xor sa da = (sa * (255 - da) div 255, da * (255 - sa) div 255)"

type_synonym pixel = "u8 \<times> u8 \<times> u8 \<times> u8"

definition composite_pixel :: "composite_op \<Rightarrow> colour \<Rightarrow> pixel \<Rightarrow> pixel" where
  "composite_pixel op src dst =
     (case (src, dst) of
        (RGBA sr sg sb sa, (dr, dg, db, da)) \<Rightarrow>
          (case weights op sa (unat da) of
             (ws, wd) \<Rightarrow>
               let ao = min 255 (ws + wd);
                   ch = (\<lambda>s d. of_nat (min 255 ((s * ws + unat d * wd) div ao)))
               in if ws = 0 \<and> wd = unat da then dst
                  else if ao = 0 then (0, 0, 0, 0)
                  else (ch sr dr, ch sg dg, ch sb db, of_nat ao)))"

text \<open>The pixels of a flattened RGBA stream, by index.\<close>

fun map_pixels :: "(nat \<Rightarrow> pixel \<Rightarrow> pixel) \<Rightarrow> nat \<Rightarrow> u8 list \<Rightarrow> u8 list" where
  "map_pixels f p (r # g # b # a # rest) =
     (case f p (r, g, b, a) of (r', g', b', a') \<Rightarrow> r' # g' # b' # a' # map_pixels f (Suc p) rest)"
| "map_pixels f p bs = bs"

text \<open>
  \<open>fillRect(0, 0, 1, 1)\<close>: the source image is the fill colour on the first pixel (of
  a canvas that has one) and transparent black everywhere else; it is composited with
  the bitmap inside the clipping region. (The transform, which moves the rectangle,
  and shadows and filters are not modelled; a transparent fill has a transparent
  source image wherever the rectangle is.)
\<close>

definition fillRect_0_0_1_1 :: "canvas \<Rightarrow> canvas" where
  "fillRect_0_0_1_1 c =
     c\<lparr>bitmap :=
         map_pixels
           (\<lambda>p dst. if clip c p
                     then composite_pixel (composite c)
                            (if p = 0 \<and> 0 < cwidth c \<and> 0 < cheight c then fill_style c
                             else RGBA 0 0 0 0) dst
                     else dst)
           0 (bitmap c)\<rparr>"

text \<open>
  The composite operations under which a transparent source leaves the destination as
  it is; under the five others the destination is cleared where the source is
  transparent. \<open>clear_clipped\<close> is the bitmap with every pixel of the clipping region
  that is not already transparent set to transparent black.
\<close>

definition keeps_destination :: "composite_op \<Rightarrow> bool" where
  "keeps_destination op \<longleftrightarrow>
     op \<noteq> SourceIn \<and> op \<noteq> SourceOut \<and> op \<noteq> DestinationIn \<and> op \<noteq> DestinationAtop \<and> op \<noteq> Copy"

definition clear_clipped :: "(nat \<Rightarrow> bool) \<Rightarrow> u8 list \<Rightarrow> u8 list" where
  "clear_clipped cl bs =
     map_pixels (\<lambda>p dst. case dst of (r, g, b, a) \<Rightarrow> if cl p \<and> a \<noteq> 0 then (0, 0, 0, 0) else dst) 0 bs"

type_synonym toDataURL_fn = "canvas \<Rightarrow> (js_error + string) \<times> canvas"

text \<open>
  \<open>getImageData\<close>: the receiver's canvas and the rectangle. The engine creates a new
  \<open>ImageData\<close> at every call, so the result is a value: the bytes of its \<open>data\<close>.
\<close>

type_synonym getImageData_fn = "canvas \<Rightarrow> int \<times> int \<times> int \<times> int \<Rightarrow> js_error + u8 list"

text \<open>\<open>getParameter\<close>: the receiver (a context, by its identity) and the argument.\<close>

type_synonym getParameter_fn = "nat \<Rightarrow> js_value \<Rightarrow> js_error + js_value"

text \<open>
  \<open>getChannelData\<close> returns a \<open>Float32Array\<close> object. Arrays live in a store, by
  address, because the wrapper writes into the array it gets: whether the engine hands
  out the buffer's own storage or a copy is the engine's choice, so the native method
  is a function from the store to an address and a store.
\<close>

type_synonym 's heap = "nat \<rightharpoonup> 's list"

type_synonym 's getChannelData_fn = "'s heap \<Rightarrow> nat \<Rightarrow> js_value \<Rightarrow> (js_error + nat) \<times> 's heap"

text \<open>
  \<open>navigator.permissions.query\<close>: the first argument is the live value of
  \<open>Notification.permission\<close> at the call (\<open>None\<close> when \<open>Notification\<close> is not
  defined), the result is the value the returned promise resolves to.
\<close>

type_synonym query_fn = "string option \<Rightarrow> js_value \<Rightarrow> js_error + js_value"

text \<open>
  The host environment. A global that is not defined is \<open>None\<close> (reading it throws a
  ReferenceError). \<open>permissions\<close> is \<open>navigator.permissions\<close> (\<open>None\<close>: falsy) with its
  \<open>query\<close> member (\<open>None\<close>: falsy). \<open>f32_add_eps\<close> is the engine's arithmetic for
  \<open>data[i] + 1e-7\<close> stored into a \<open>Float32Array\<close>; the sample type and its rounding
  are parameters.
\<close>

record 's host =
  navigator :: "js_object option"
  navigator_proto :: "js_object option"
  permissions :: "query_fn option option"
  window :: "js_object option"
  toDataURL :: "toDataURL_fn option"
  getImageData :: "getImageData_fn option"
  getParameter :: "getParameter_fn option"
  getChannelData :: "'s getChannelData_fn option"
  f32_add_eps :: "'s \<Rightarrow> 's"

text \<open>Reading \<open>navigator.name\<close>: the own property, else the prototype's.\<close>

definition nav_get :: "js_object option \<Rightarrow> js_object \<Rightarrow> string \<Rightarrow> js_value" where
  "nav_get proto nav n =
     (case map_of (props nav) n of
        Some p \<Rightarrow> pval p
      | None \<Rightarrow>
          (case proto of
             None \<Rightarrow> JUndefined
           | Some pr \<Rightarrow> (case map_of (props pr) n of Some p \<Rightarrow> pval p | None \<Rightarrow> JUndefined)))"

subsection \<open>The wrappers\<close>

text \<open>
  \<^verbatim>\<open>for (let i = 0; i < data.data.length; i += 10) { data.data[i] = data.data[i] ^ 0x11; }\<close>
  on a \<open>Uint8ClampedArray\<close>: the element is read as a number in 0..255, the XOR with
  \<open>0x11\<close> stays in 0..255, so the clamping store keeps it.
\<close>

function pixel_noise_from :: "nat \<Rightarrow> u8 list \<Rightarrow> u8 list" where
  "pixel_noise_from i d =
     (if i < length d then pixel_noise_from (i + 10) (d[i := (d ! i) XOR 0x11]) else d)"
  by pat_completeness auto
termination
  by (relation "measure (\<lambda>(i, d). length d - i)") auto

definition pixel_noise :: "u8 list \<Rightarrow> u8 list" where
  "pixel_noise d = pixel_noise_from 0 d"

declare pixel_noise_from.simps [simp del]

text \<open>
  \<^verbatim>\<open>const data = orig_getImageData.apply(this, arguments);
  try { for ... } catch (e) {}
  return data;\<close>
  An exception of the original propagates.
\<close>

definition wrap_getImageData :: "getImageData_fn \<Rightarrow> getImageData_fn" where
  "wrap_getImageData orig c r =
     (case orig c r of Inl e \<Rightarrow> Inl e | Inr d \<Rightarrow> Inr (pixel_noise d))"

text \<open>
  \<^verbatim>\<open>const ctx = this.getContext && this.getContext('2d');
  if (ctx) { try { ctx.fillStyle = 'rgba(0,0,0,0)'; ctx.fillRect(0, 0, 1, 1); } catch (e) {} }\<close>
\<close>

definition touch_canvas :: "canvas \<Rightarrow> canvas" where
  "touch_canvas c =
     (case getContext2d c of
        (True, c1) \<Rightarrow> fillRect_0_0_1_1 (c1\<lparr>fill_style := RGBA 0 0 0 0\<rparr>)
      | (False, c1) \<Rightarrow> c1)"

definition wrap_toDataURL :: "toDataURL_fn \<Rightarrow> toDataURL_fn" where
  "wrap_toDataURL orig c = orig (touch_canvas c)"

text \<open>
  \<^verbatim>\<open>if (param === 37445) return 'Intel Inc.';
  if (param === 37446) return 'Intel Iris OpenGL Engine';
  return getParameter.apply(this, arguments);\<close>
\<close>

definition wrap_getParameter :: "getParameter_fn \<Rightarrow> getParameter_fn" where
  "wrap_getParameter orig this param =
     (if param = JNum 37445 then Inr (JStr ''Intel Inc.'')
      else if param = JNum 37446 then Inr (JStr ''Intel Iris OpenGL Engine'')
      else orig this param)"

text \<open>\<^verbatim>\<open>for (let i = 0; i < data.length; i += 100) { data[i] = data[i] + 1e-7; }\<close>\<close>

function audio_noise_from :: "('s \<Rightarrow> 's) \<Rightarrow> nat \<Rightarrow> 's list \<Rightarrow> 's list" where
  "audio_noise_from add_eps i d =
     (if i < length d then audio_noise_from add_eps (i + 100) (d[i := add_eps (d ! i)]) else d)"
  by pat_completeness auto
termination
  by (relation "measure (\<lambda>(f, i, d). length d - i)") auto

declare audio_noise_from.simps [simp del]

text \<open>
  \<^verbatim>\<open>const data = orig_getChannelData.apply(this, arguments);
  try { for ... } catch (e) {}
  return data;\<close>
  The loop writes into the array object the original returned; when the original
  returns no array, \<open>data.length\<close> throws inside the \<open>try\<close> and nothing is written.
\<close>

definition wrap_getChannelData :: "('s \<Rightarrow> 's) \<Rightarrow> 's getChannelData_fn \<Rightarrow> 's getChannelData_fn" where
  "wrap_getChannelData add_eps orig hp this ch =
     (case orig hp this ch of
        (Inl e, hp') \<Rightarrow> (Inl e, hp')
      | (Inr a, hp') \<Rightarrow>
          (case hp' a of
             None \<Rightarrow> (Inr a, hp')
           | Some d \<Rightarrow> (Inr a, hp'(a \<mapsto> audio_noise_from add_eps 0 d))))"

text \<open>
  \<^verbatim>\<open>try { if (parameters && parameters.name === 'notifications') {
          return Promise.resolve({ state: Notification.permission }); } } catch (e) {}
  return origQuery.apply(this, arguments);\<close>
\<close>

definition wrap_query :: "query_fn \<Rightarrow> query_fn" where
  "wrap_query orig np parameters =
     (if truthy parameters \<and> js_name parameters = JStr ''notifications''
      then (case np of
              Some s \<Rightarrow> Inr (JObj [(''state'', JStr s)])
            | None \<Rightarrow> orig np parameters)
      else orig np parameters)"

subsection \<open>The artifact pattern\<close>

text \<open>
  \<^verbatim>\<open>/^__?cdc_|webdriver|__driver|selenium|driver/i.test(k)\<close>. The pattern is ASCII, and
  without the \<open>u\<close> flag no character outside ASCII matches an ASCII letter, so
  ignoring case is lowering the ASCII capitals of the name.
\<close>

definition lower_char :: "char \<Rightarrow> char" where
  "lower_char c =
     (let n = (of_char c :: nat) in if 65 \<le> n \<and> n \<le> 90 then char_of (n + 32) else c)"

fun starts_with :: "string \<Rightarrow> string \<Rightarrow> bool" where
  "starts_with [] s = True"
| "starts_with (p # ps) [] = False"
| "starts_with (p # ps) (c # cs) = (p = c \<and> starts_with ps cs)"

fun contains_str :: "string \<Rightarrow> string \<Rightarrow> bool" where
  "contains_str p [] = (p = [])"
| "contains_str p (c # cs) = (starts_with p (c # cs) \<or> contains_str p cs)"

definition artifact_test :: "string \<Rightarrow> bool" where
  "artifact_test k =
     (let s = map lower_char k in
        starts_with ''_cdc_'' s \<or> starts_with ''__cdc_'' s \<or> contains_str ''webdriver'' s \<or>
        contains_str ''__driver'' s \<or> contains_str ''selenium'' s \<or> contains_str ''driver'' s)"

subsection \<open>The blocks of the script\<close>

type_synonym 's cmd = "'s host \<Rightarrow> js_error option \<times> 's host"

text \<open>\<^verbatim>\<open>try { body } catch (e) {}\<close>: the state the body reached is kept, the error is dropped.\<close>

definition try_catch :: "'s cmd \<Rightarrow> 's cmd" where
  "try_catch body h = (None, snd (body h))"

fun run_steps :: "'s cmd list \<Rightarrow> 's cmd" where
  "run_steps [] h = (None, h)"
| "run_steps (c # cs) h = (case c h of (None, h') \<Rightarrow> run_steps cs h' | (Some e, h') \<Rightarrow> (Some e, h'))"

text \<open>Lines 21-38: navigator properties.\<close>

definition identity_props :: "js_object \<Rightarrow> js_object" where
  "identity_props nav =
     (let nav1 = safeDefine nav ''languages'' (JArr [JStr ''en-US'', JStr ''en'']) True;
          nav2 = safeDefine nav1 ''platform'' (JStr ''Win32'') True;
          nav3 = safeDefine nav2 ''hardwareConcurrency'' (JNum 8) True
      in safeDefine nav3 ''deviceMemory'' (JNum 8) True)"

text \<open>
  \<^verbatim>\<open>try { Object.defineProperty(navigator, 'webdriver', { get: () => undefined, configurable: true }); } catch (e) {}\<close>
  and the same on \<open>navigator.__proto__\<close> when it is not null.
\<close>

definition hide_webdriver :: "js_object \<Rightarrow> js_object" where
  "hide_webdriver ob =
     (case defineProperty ob ''webdriver'' JUndefined True of Inl e \<Rightarrow> ob | Inr ob' \<Rightarrow> ob')"

definition navigator_block :: "'s cmd" where
  "navigator_block h =
     (case navigator h of
        None \<Rightarrow> (Some ReferenceError, h)
      | Some nav \<Rightarrow>
          (None, h\<lparr>navigator := Some (hide_webdriver (identity_props nav)),
                   navigator_proto := (case navigator_proto h of
                                         None \<Rightarrow> None
                                       | Some pr \<Rightarrow> Some (hide_webdriver pr))\<rparr>))"

text \<open>Lines 41-49: the userAgentData fallback.\<close>

definition fake_userAgentData :: js_value where
  "fake_userAgentData =
     JObj [(''getBrands'',
            JFun (JArr [JObj [(''brand'', JStr ''Chromium''), (''version'', JStr ''120'')],
                        JObj [(''brand'', JStr ''Google Chrome''), (''version'', JStr ''120'')]])),
           (''mobile'', JBool False),
           (''platform'', JStr ''Windows'')]"

definition userAgentData_fallback :: "js_object option \<Rightarrow> js_object \<Rightarrow> js_object" where
  "userAgentData_fallback proto nav =
     (if nav_get proto nav ''userAgentData'' = JUndefined
      then safeDefine nav ''userAgentData'' fake_userAgentData True
      else nav)"

definition userAgentData_block :: "'s cmd" where
  "userAgentData_block h =
     (case navigator h of
        None \<Rightarrow> (Some ReferenceError, h)
      | Some nav \<Rightarrow> (None, h\<lparr>navigator := Some (userAgentData_fallback (navigator_proto h) nav)\<rparr>))"

text \<open>
  Lines 52-78: canvas. The two assignments are in one \<open>try\<close>: when
  \<open>CanvasRenderingContext2D\<close> is not defined, \<open>toDataURL\<close> is already replaced.
\<close>

definition canvas_block :: "'s cmd" where
  "canvas_block h =
     (case toDataURL h of
        None \<Rightarrow> (Some ReferenceError, h)
      | Some orig_toDataURL \<Rightarrow>
          let h1 = h\<lparr>toDataURL := Some (wrap_toDataURL orig_toDataURL)\<rparr> in
          (case getImageData h1 of
             None \<Rightarrow> (Some ReferenceError, h1)
           | Some orig_getImageData \<Rightarrow>
               (None, h1\<lparr>getImageData := Some (wrap_getImageData orig_getImageData)\<rparr>)))"

text \<open>Lines 81-91: WebGL.\<close>

definition webgl_block :: "'s cmd" where
  "webgl_block h =
     (case getParameter h of
        None \<Rightarrow> (Some ReferenceError, h)
      | Some orig \<Rightarrow> (None, h\<lparr>getParameter := Some (wrap_getParameter orig)\<rparr>))"

text \<open>Lines 94-106: audio.\<close>

definition audio_block :: "'s cmd" where
  "audio_block h =
     (case getChannelData h of
        None \<Rightarrow> (Some ReferenceError, h)
      | Some orig \<Rightarrow>
          (None, h\<lparr>getChannelData := Some (wrap_getChannelData (f32_add_eps h) orig)\<rparr>))"

text \<open>
  Lines 109-125: the sweep of the global object. The names are listed once, after the
  two explicit deletions; each deletion has its own \<open>try\<close>.
\<close>

definition sweep_names :: "js_object \<Rightarrow> string list \<Rightarrow> js_object" where
  "sweep_names w names = foldl (\<lambda>ob k. if artifact_test k then try_delete ob k else ob) w names"

definition sweep :: "js_object \<Rightarrow> js_object" where
  "sweep w =
     (let w1 = try_delete w ''__webdriver'';
          w2 = try_delete w1 ''_webdriver'';
          names = own_names w2
      in sweep_names w2 names)"

definition artifact_block :: "'s cmd" where
  "artifact_block h =
     (case window h of
        None \<Rightarrow> (Some ReferenceError, h)
      | Some w \<Rightarrow> (None, h\<lparr>window := Some (sweep w)\<rparr>))"

text \<open>Lines 128-141: \<open>navigator.permissions.query\<close>.\<close>

definition permissions_block :: "'s cmd" where
  "permissions_block h =
     (case navigator h of
        None \<Rightarrow> (Some ReferenceError, h)
      | Some nav \<Rightarrow>
          (case permissions h of
             Some (Some origQuery) \<Rightarrow> (None, h\<lparr>permissions := Some (Some (wrap_query origQuery))\<rparr>)
           | _ \<Rightarrow> (None, h)))"

text \<open>Lines 144-166: plugins and mimeTypes.\<close>

definition fake_plugin :: "string \<Rightarrow> string \<Rightarrow> string \<Rightarrow> js_value" where
  "fake_plugin name filename description =
     JObj [(''name'', JStr name), (''filename'', JStr filename), (''description'', JStr description),
           (''length'', JNum 0), (''0'', JUndefined)]"

definition pluginArray :: js_value where
  "pluginArray =
     JArr [fake_plugin ''Chrome PDF Plugin'' ''internal-pdf-viewer'' [],
           fake_plugin ''Chromium PDF Viewer'' ''mhjfbmdgcfjbbpaeojofohoefgiehjai'' []]"

definition fake_plugins :: "js_object option \<Rightarrow> js_object \<Rightarrow> js_object" where
  "fake_plugins proto nav =
     (let plugins = nav_get proto nav ''plugins'';
          nav1 = (if truthy plugins \<and> js_length plugins = JNum 0
                  then safeDefine nav ''plugins'' pluginArray True else nav);
          mimeTypes = nav_get proto nav1 ''mimeTypes''
      in if truthy mimeTypes \<and> js_length mimeTypes = JNum 0
         then safeDefine nav1 ''mimeTypes'' (JArr []) True else nav1)"

definition plugins_block :: "'s cmd" where
  "plugins_block h =
     (case navigator h of
        None \<Rightarrow> (Some ReferenceError, h)
      | Some nav \<Rightarrow> (None, h\<lparr>navigator := Some (fake_plugins (navigator_proto h) nav)\<rparr>))"

text \<open>Lines 169-171: the marker.\<close>

definition marker_block :: "'s cmd" where
  "marker_block h =
     (case window h of
        None \<Rightarrow> (Some ReferenceError, h)
      | Some w \<Rightarrow>
          (case defineProperty w ''__stealth_patch_applied__'' (JBool True) True of
             Inl e \<Rightarrow> (Some e, h)
           | Inr w' \<Rightarrow> (None, h\<lparr>window := Some w'\<rparr>)))"

subsection \<open>The whole script\<close>

datatype patch_step =
    NavigatorIdentity | UserAgentData | Canvas | WebGL | Audio
  | ArtifactSweep | Permissions | Plugins | AppliedMarker

fun step_block :: "patch_step \<Rightarrow> 's cmd" where
  "step_block NavigatorIdentity = navigator_block"
| "step_block UserAgentData = userAgentData_block"
| "step_block Canvas = canvas_block"
| "step_block WebGL = webgl_block"
| "step_block Audio = audio_block"
| "step_block ArtifactSweep = artifact_block"
| "step_block Permissions = permissions_block"
| "step_block Plugins = plugins_block"
| "step_block AppliedMarker = marker_block"

text \<open>The top-level \<open>try\<close> blocks of the function, in the order of the file.\<close>

definition patch_steps :: "patch_step list" where
  "patch_steps =
     [NavigatorIdentity, UserAgentData, Canvas, WebGL, Audio,
      ArtifactSweep, Permissions, Plugins, AppliedMarker]"

definition stealth_patch :: "'s cmd" where
  "stealth_patch h = run_steps (map (\<lambda>s. try_catch (step_block s)) patch_steps) h"

text \<open>The host after the script has run.\<close>

definition patched :: "'s host \<Rightarrow> 's host" where
  "patched h = snd (stealth_patch h)"

subsection \<open>Calls of page code, and a concrete host\<close>

text \<open>
  Page code calling a method finds what the prototype holds at that time. (Where the
  interface is not defined there is no receiver to call it on; the call is then the
  ReferenceError of naming the interface.)
\<close>

definition call_getImageData :: "'s host \<Rightarrow> getImageData_fn" where
  "call_getImageData h c r =
     (case getImageData h of None \<Rightarrow> Inl ReferenceError | Some f \<Rightarrow> f c r)"

definition call_toDataURL :: "'s host \<Rightarrow> toDataURL_fn" where
  "call_toDataURL h c =
     (case toDataURL h of None \<Rightarrow> (Inl ReferenceError, c) | Some f \<Rightarrow> f c)"

definition call_getParameter :: "'s host \<Rightarrow> getParameter_fn" where
  "call_getParameter h this param =
     (case getParameter h of None \<Rightarrow> Inl ReferenceError | Some f \<Rightarrow> f this param)"

definition call_getChannelData :: "'s host \<Rightarrow> 's getChannelData_fn" where
  "call_getChannelData h hp this ch =
     (case getChannelData h of None \<Rightarrow> (Inl ReferenceError, hp) | Some f \<Rightarrow> f hp this ch)"

definition call_query :: "'s host \<Rightarrow> query_fn" where
  "call_query h np parameters =
     (case permissions h of Some (Some f) \<Rightarrow> f np parameters | _ \<Rightarrow> Inl TypeError)"

text \<open>Reading a property of \<open>navigator\<close> in a host.\<close>

definition navigator_get :: "'s host \<Rightarrow> string \<Rightarrow> js_error + js_value" where
  "navigator_get h n =
     (case navigator h of None \<Rightarrow> Inl ReferenceError | Some nav \<Rightarrow> Inr (nav_get (navigator_proto h) nav n))"

definition navigator_own :: "'s host \<Rightarrow> string \<Rightarrow> js_prop option" where
  "navigator_own h n = (case navigator h of None \<Rightarrow> None | Some nav \<Rightarrow> map_of (props nav) n)"

definition window_names :: "'s host \<Rightarrow> string list" where
  "window_names h = (case window h of None \<Rightarrow> [] | Some w \<Rightarrow> own_names w)"

text \<open>
  A host as a headless Chromium under a driver presents it: the navigator's properties
  are accessors of its prototype, the plugin and mimeType lists are empty, the global
  object carries driver markers, one of them not configurable (as a global declared
  with \<open>var\<close> is). Its \<open>getImageData\<close> returns a copy of the bitmap, its
  \<open>getChannelData\<close> the buffer's own \<open>Float32Array\<close> (the address of the receiver).
\<close>

definition own :: "js_value \<Rightarrow> bool \<Rightarrow> js_prop" where
  "own v cfg = \<lparr>pval = v, configurable = cfg\<rparr>"

definition demo_window :: js_object where
  "demo_window =
     \<lparr>props = [(''document'', own (JObj []) False),
               (''__webdriver'', own (JBool True) True),
               (''_cdc_adoQpoasnfa76pfcZLmcfl'', own (JObj []) True),
               (''cdc_marker'', own (JObj []) True),
               (''_Selenium_IDE_Recorder'', own (JObj []) True),
               (''__driver_evaluate'', own (JFun JUndefined) False),
               (''name'', own (JStr []) True)],
      extensible = True\<rparr>"

definition demo_navigator_proto :: js_object where
  "demo_navigator_proto =
     \<lparr>props = [(''webdriver'', own (JBool True) True),
               (''languages'', own (JArr [JStr ''en-US'']) True),
               (''platform'', own (JStr ''Linux x86_64'') True),
               (''hardwareConcurrency'', own (JNum 2) True),
               (''plugins'', own (JArr []) True),
               (''mimeTypes'', own (JArr []) True)],
      extensible = True\<rparr>"

definition demo_getParameter :: getParameter_fn where
  "demo_getParameter this param =
     (if param = JNum 37445 then Inr (JStr ''Google Inc. (NVIDIA)'')
      else if param = JNum 37446 then Inr (JStr ''ANGLE (NVIDIA GeForce)'')
      else if param = JNum 7936 then Inr (JStr ''WebKit'')
      else Inr JNull)"

definition demo_host :: "real host" where
  "demo_host =
     \<lparr>navigator = Some \<lparr>props = [], extensible = True\<rparr>,
      navigator_proto = Some demo_navigator_proto,
      permissions = Some (Some (\<lambda>np parameters. Inr (JObj [(''state'', JStr ''prompt'')]))),
      window = Some demo_window,
      toDataURL = Some (\<lambda>c. (Inr (map (\<lambda>b. char_of (unat b)) (bitmap c)), c)),
      getImageData = Some (\<lambda>c r. Inr (bitmap c)),
      getParameter = Some demo_getParameter,
      getChannelData = Some (\<lambda>hp this ch. (Inr this, hp)),
      f32_add_eps = (\<lambda>x. x + 1 / 10000000)\<rparr>"

definition demo_canvas :: canvas where
  "demo_canvas =
     \<lparr>ctx_mode = Context2D, fill_style = RGBA 0 0 0 255, composite = SourceOver,
      clip = (\<lambda>p. True), cwidth = 3, cheight = 1,
      bitmap = [200, 100, 50, 255, 0, 0, 0, 255, 7, 8, 9, 255]\<rparr>"

section \<open>Properties\<close>

subsection \<open>The script as a composition of its blocks\<close>

lemma stealth_patch_unfold:
  "stealth_patch h =
     (None, snd (marker_block (snd (plugins_block (snd (permissions_block (snd (artifact_block
        (snd (audio_block (snd (webgl_block (snd (canvas_block (snd (userAgentData_block
        (snd (navigator_block h))))))))))))))))))"
  by (simp add: stealth_patch_def patch_steps_def try_catch_def)

lemma patched_unfold:
  "patched h =
     snd (marker_block (snd (plugins_block (snd (permissions_block (snd (artifact_block
        (snd (audio_block (snd (webgl_block (snd (canvas_block (snd (userAgentData_block
        (snd (navigator_block h)))))))))))))))))"
  by (simp add: patched_def stealth_patch_unfold)

text \<open>Frame facts: which fields each block leaves alone.\<close>

lemma navigator_block_frame [simp]:
  "window (snd (navigator_block h)) = window h"
  "permissions (snd (navigator_block h)) = permissions h"
  "toDataURL (snd (navigator_block h)) = toDataURL h"
  "getImageData (snd (navigator_block h)) = getImageData h"
  "getParameter (snd (navigator_block h)) = getParameter h"
  "getChannelData (snd (navigator_block h)) = getChannelData h"
  "f32_add_eps (snd (navigator_block h)) = f32_add_eps h"
  by (simp_all add: navigator_block_def split: option.split)

lemma userAgentData_block_frame [simp]:
  "window (snd (userAgentData_block h)) = window h"
  "navigator_proto (snd (userAgentData_block h)) = navigator_proto h"
  "permissions (snd (userAgentData_block h)) = permissions h"
  "toDataURL (snd (userAgentData_block h)) = toDataURL h"
  "getImageData (snd (userAgentData_block h)) = getImageData h"
  "getParameter (snd (userAgentData_block h)) = getParameter h"
  "getChannelData (snd (userAgentData_block h)) = getChannelData h"
  "f32_add_eps (snd (userAgentData_block h)) = f32_add_eps h"
  by (simp_all add: userAgentData_block_def split: option.split)

lemma canvas_block_frame [simp]:
  "window (snd (canvas_block h)) = window h"
  "navigator (snd (canvas_block h)) = navigator h"
  "navigator_proto (snd (canvas_block h)) = navigator_proto h"
  "permissions (snd (canvas_block h)) = permissions h"
  "getParameter (snd (canvas_block h)) = getParameter h"
  "getChannelData (snd (canvas_block h)) = getChannelData h"
  "f32_add_eps (snd (canvas_block h)) = f32_add_eps h"
  by (simp_all add: canvas_block_def Let_def split: option.split)

lemma canvas_block_fields [simp]:
  "toDataURL (snd (canvas_block h)) = map_option wrap_toDataURL (toDataURL h)"
  "getImageData (snd (canvas_block h)) =
     (case toDataURL h of None \<Rightarrow> getImageData h
      | Some t \<Rightarrow> map_option wrap_getImageData (getImageData h))"
  by (simp_all add: canvas_block_def Let_def split: option.split)

lemma webgl_block_frame [simp]:
  "window (snd (webgl_block h)) = window h"
  "navigator (snd (webgl_block h)) = navigator h"
  "navigator_proto (snd (webgl_block h)) = navigator_proto h"
  "permissions (snd (webgl_block h)) = permissions h"
  "toDataURL (snd (webgl_block h)) = toDataURL h"
  "getImageData (snd (webgl_block h)) = getImageData h"
  "getChannelData (snd (webgl_block h)) = getChannelData h"
  "f32_add_eps (snd (webgl_block h)) = f32_add_eps h"
  "getParameter (snd (webgl_block h)) = map_option wrap_getParameter (getParameter h)"
  by (simp_all add: webgl_block_def split: option.split)

lemma audio_block_frame [simp]:
  "window (snd (audio_block h)) = window h"
  "navigator (snd (audio_block h)) = navigator h"
  "navigator_proto (snd (audio_block h)) = navigator_proto h"
  "permissions (snd (audio_block h)) = permissions h"
  "toDataURL (snd (audio_block h)) = toDataURL h"
  "getImageData (snd (audio_block h)) = getImageData h"
  "getParameter (snd (audio_block h)) = getParameter h"
  "f32_add_eps (snd (audio_block h)) = f32_add_eps h"
  "getChannelData (snd (audio_block h)) =
     map_option (wrap_getChannelData (f32_add_eps h)) (getChannelData h)"
  by (simp_all add: audio_block_def split: option.split)

lemma artifact_block_frame [simp]:
  "navigator (snd (artifact_block h)) = navigator h"
  "navigator_proto (snd (artifact_block h)) = navigator_proto h"
  "permissions (snd (artifact_block h)) = permissions h"
  "toDataURL (snd (artifact_block h)) = toDataURL h"
  "getImageData (snd (artifact_block h)) = getImageData h"
  "getParameter (snd (artifact_block h)) = getParameter h"
  "getChannelData (snd (artifact_block h)) = getChannelData h"
  "f32_add_eps (snd (artifact_block h)) = f32_add_eps h"
  by (simp_all add: artifact_block_def split: option.split)

lemma permissions_block_frame [simp]:
  "window (snd (permissions_block h)) = window h"
  "navigator (snd (permissions_block h)) = navigator h"
  "navigator_proto (snd (permissions_block h)) = navigator_proto h"
  "toDataURL (snd (permissions_block h)) = toDataURL h"
  "getImageData (snd (permissions_block h)) = getImageData h"
  "getParameter (snd (permissions_block h)) = getParameter h"
  "getChannelData (snd (permissions_block h)) = getChannelData h"
  "f32_add_eps (snd (permissions_block h)) = f32_add_eps h"
  by (simp_all add: permissions_block_def split: option.split)

lemma plugins_block_frame [simp]:
  "window (snd (plugins_block h)) = window h"
  "navigator_proto (snd (plugins_block h)) = navigator_proto h"
  "permissions (snd (plugins_block h)) = permissions h"
  "toDataURL (snd (plugins_block h)) = toDataURL h"
  "getImageData (snd (plugins_block h)) = getImageData h"
  "getParameter (snd (plugins_block h)) = getParameter h"
  "getChannelData (snd (plugins_block h)) = getChannelData h"
  "f32_add_eps (snd (plugins_block h)) = f32_add_eps h"
  by (simp_all add: plugins_block_def split: option.split)

lemma marker_block_frame [simp]:
  "navigator (snd (marker_block h)) = navigator h"
  "navigator_proto (snd (marker_block h)) = navigator_proto h"
  "permissions (snd (marker_block h)) = permissions h"
  "toDataURL (snd (marker_block h)) = toDataURL h"
  "getImageData (snd (marker_block h)) = getImageData h"
  "getParameter (snd (marker_block h)) = getParameter h"
  "getChannelData (snd (marker_block h)) = getChannelData h"
  "f32_add_eps (snd (marker_block h)) = f32_add_eps h"
  by (simp_all add: marker_block_def split: option.split sum.split)

lemma patched_getImageData:
  "getImageData (patched h) =
     (case toDataURL h of None \<Rightarrow> getImageData h
      | Some t \<Rightarrow> map_option wrap_getImageData (getImageData h))"
  by (simp add: patched_unfold split: option.split)

lemma patched_toDataURL: "toDataURL (patched h) = map_option wrap_toDataURL (toDataURL h)"
  by (simp add: patched_unfold)

lemma patched_getParameter: "getParameter (patched h) = map_option wrap_getParameter (getParameter h)"
  by (simp add: patched_unfold)

lemma patched_getChannelData:
  "getChannelData (patched h) = map_option (wrap_getChannelData (f32_add_eps h)) (getChannelData h)"
  by (simp add: patched_unfold)

lemma patched_f32_add_eps: "f32_add_eps (patched h) = f32_add_eps h"
  by (simp add: patched_unfold)


subsection \<open>No block raises; no block but the WebGL one reads \<open>getParameter\<close>\<close>

lemma try_catch_None [simp]: "fst (try_catch b h) = None"
  by (simp add: try_catch_def)

lemma stealth_patch_completes: "fst (stealth_patch h) = None"
  by (simp add: stealth_patch_unfold)

lemma navigator_block_no_webgl:
  "snd (navigator_block (h\<lparr>getParameter := x\<rparr>)) = (snd (navigator_block h))\<lparr>getParameter := x\<rparr>"
  by (simp add: navigator_block_def split: option.split)

lemma userAgentData_block_no_webgl:
  "snd (userAgentData_block (h\<lparr>getParameter := x\<rparr>)) = (snd (userAgentData_block h))\<lparr>getParameter := x\<rparr>"
  by (simp add: userAgentData_block_def split: option.split)

lemma canvas_block_no_webgl:
  "snd (canvas_block (h\<lparr>getParameter := x\<rparr>)) = (snd (canvas_block h))\<lparr>getParameter := x\<rparr>"
  by (simp add: canvas_block_def Let_def split: option.split)

lemma webgl_block_absent:
  "snd (webgl_block (h\<lparr>getParameter := None\<rparr>)) = (snd (webgl_block h))\<lparr>getParameter := None\<rparr>"
  by (simp add: webgl_block_def split: option.split)

lemma audio_block_no_webgl:
  "snd (audio_block (h\<lparr>getParameter := x\<rparr>)) = (snd (audio_block h))\<lparr>getParameter := x\<rparr>"
  by (simp add: audio_block_def split: option.split)

lemma artifact_block_no_webgl:
  "snd (artifact_block (h\<lparr>getParameter := x\<rparr>)) = (snd (artifact_block h))\<lparr>getParameter := x\<rparr>"
  by (simp add: artifact_block_def split: option.split)

lemma permissions_block_no_webgl:
  "snd (permissions_block (h\<lparr>getParameter := x\<rparr>)) = (snd (permissions_block h))\<lparr>getParameter := x\<rparr>"
  by (simp add: permissions_block_def split: option.split)

lemma plugins_block_no_webgl:
  "snd (plugins_block (h\<lparr>getParameter := x\<rparr>)) = (snd (plugins_block h))\<lparr>getParameter := x\<rparr>"
  by (simp add: plugins_block_def split: option.split)

lemma marker_block_no_webgl:
  "snd (marker_block (h\<lparr>getParameter := x\<rparr>)) = (snd (marker_block h))\<lparr>getParameter := x\<rparr>"
  by (simp add: marker_block_def split: option.split sum.split)

lemmas no_webgl = navigator_block_no_webgl userAgentData_block_no_webgl canvas_block_no_webgl
  webgl_block_absent audio_block_no_webgl artifact_block_no_webgl permissions_block_no_webgl
  plugins_block_no_webgl marker_block_no_webgl

subsection \<open>Deleting properties: the sweep\<close>

lemma map_of_filter_other:
  "k' \<noteq> k \<Longrightarrow> map_of (filter (\<lambda>q. fst q \<noteq> k) xs) k' = map_of xs k'"
  by (induction xs) auto

lemma map_of_filter_same: "map_of (filter (\<lambda>q. fst q \<noteq> k) xs) k = None"
  by (induction xs) auto

lemma filter_absent: "map_of xs k = None \<Longrightarrow> filter (\<lambda>q. fst q \<noteq> k) xs = xs"
  by (induction xs) (auto split: if_splits)

lemma props_try_delete:
  "props (try_delete ob k) = (if locked ob k then props ob else filter (\<lambda>q. fst q \<noteq> k) (props ob))"
  by (auto simp: try_delete_def delete_prop_def locked_def filter_absent split: option.split)

lemma extensible_try_delete [simp]: "extensible (try_delete ob k) = extensible ob"
  by (auto simp: try_delete_def delete_prop_def split: option.split)

lemma locked_try_delete [simp]: "locked (try_delete ob k) k' = locked ob k'"
  by (cases "k' = k")
     (auto simp: locked_def props_try_delete map_of_filter_other map_of_filter_same split: option.split)

lemma set_names_try_delete:
  "set (own_names (try_delete ob k)) = (if locked ob k then set (own_names ob) else set (own_names ob) - {k})"
  by (auto simp: own_names_def props_try_delete)

lemma locked_sweep_names [simp]: "locked (sweep_names ob ns) k = locked ob k"
  by (induction ns arbitrary: ob) (simp_all add: sweep_names_def)

lemma set_names_sweep_names:
  "set (own_names (sweep_names ob ns)) =
     set (own_names ob) - {k. k \<in> set ns \<and> artifact_test k \<and> \<not> locked ob k}"
proof (induction ns arbitrary: ob)
  case Nil
  then show ?case by (simp add: sweep_names_def)
next
  case (Cons n ns)
  have unf: "sweep_names ob (n # ns) = sweep_names (if artifact_test n then try_delete ob n else ob) ns"
    by (simp add: sweep_names_def)
  show ?case
    unfolding unf Cons.IH
    by (auto simp: set_names_try_delete)
qed

lemma locked_sweep [simp]: "locked (sweep w) k = locked w k"
  by (simp add: sweep_def Let_def)

lemma locked_in_names: "locked ob k \<Longrightarrow> k \<in> set (own_names ob)"
  by (auto simp: locked_def own_names_def split: option.splits dest: map_of_SomeD intro: rev_image_eqI)

lemma set_names_sweep:
  "set (own_names (sweep w)) = {k \<in> set (own_names w). artifact_test k \<longrightarrow> locked w k}"
proof -
  have a: "artifact_test ''__webdriver''" by code_simp
  have b: "artifact_test ''_webdriver''" by code_simp
  show ?thesis
    using a b
    by (auto simp: sweep_def Let_def set_names_sweep_names set_names_try_delete split: if_splits)
qed

subsection \<open>Defining properties\<close>

lemma map_of_update_prop:
  "map_of (update_prop n p xs) k = (if k = n then Some p else map_of xs k)"
  by (induction xs) auto

lemma set_fst_update_prop: "fst ` set (update_prop n p xs) = insert n (fst ` set xs)"
  by (induction xs) auto

lemma update_prop_triv: "map_of xs n = Some p \<Longrightarrow> update_prop n p xs = xs"
  by (induction xs) (auto split: if_splits)

lemma safeDefine_eq:
  "safeDefine ob n v cfg =
     (if definable ob n then ob\<lparr>props := update_prop n \<lparr>pval = v, configurable = cfg\<rparr> (props ob)\<rparr>
      else ob)"
  by (auto simp: safeDefine_def defineProperty_def definable_def split: option.split)

lemma hide_webdriver_eq: "hide_webdriver ob = safeDefine ob ''webdriver'' JUndefined True"
  by (simp add: hide_webdriver_def safeDefine_def)

lemma map_of_safeDefine:
  "map_of (props (safeDefine ob n v cfg)) k =
     (if k = n \<and> definable ob n then Some \<lparr>pval = v, configurable = cfg\<rparr> else map_of (props ob) k)"
  by (simp add: safeDefine_eq map_of_update_prop)

lemma extensible_safeDefine [simp]: "extensible (safeDefine ob n v cfg) = extensible ob"
  by (simp add: safeDefine_eq)

lemma definable_safeDefine [simp]: "definable (safeDefine ob n v True) k = definable ob k"
  by (auto simp: definable_def map_of_safeDefine split: option.split)

lemma locked_safeDefine [simp]: "locked (safeDefine ob n v True) k = locked ob k"
  by (auto simp: locked_def definable_def map_of_safeDefine split: option.split)

lemma set_names_safeDefine:
  "set (own_names (safeDefine ob n v cfg)) =
     (if definable ob n then insert n (set (own_names ob)) else set (own_names ob))"
  by (simp add: safeDefine_eq own_names_def set_fst_update_prop)

lemma safeDefine_settled:
  "safeDefine ob n v True = ob \<longleftrightarrow>
     \<not> definable ob n \<or> map_of (props ob) n = Some \<lparr>pval = v, configurable = True\<rparr>"
proof (cases "definable ob n")
  case False
  then show ?thesis by (simp add: safeDefine_eq)
next
  case True
  show ?thesis
  proof
    assume "safeDefine ob n v True = ob"
    then have "map_of (props (safeDefine ob n v True)) n = map_of (props ob) n" by simp
    then show "\<not> definable ob n \<or> map_of (props ob) n = Some \<lparr>pval = v, configurable = True\<rparr>"
      using True by (simp add: map_of_safeDefine)
  next
    assume "\<not> definable ob n \<or> map_of (props ob) n = Some \<lparr>pval = v, configurable = True\<rparr>"
    with True have "map_of (props ob) n = Some \<lparr>pval = v, configurable = True\<rparr>" by simp
    then show "safeDefine ob n v True = ob"
      by (simp add: safeDefine_eq update_prop_triv)
  qed
qed

subsection \<open>The global object after the script\<close>

lemma marker_block_window:
  "window (snd (marker_block h)) =
     map_option (\<lambda>w. safeDefine w ''__stealth_patch_applied__'' (JBool True) True) (window h)"
  by (simp add: marker_block_def safeDefine_def split: option.split sum.split)

lemma artifact_block_window: "window (snd (artifact_block h)) = map_option sweep (window h)"
  by (simp add: artifact_block_def split: option.split)

lemma patched_window:
  "window (patched h) =
     map_option (\<lambda>w. safeDefine (sweep w) ''__stealth_patch_applied__'' (JBool True) True) (window h)"
  by (simp add: patched_unfold marker_block_window artifact_block_window option.map_comp comp_def)

lemma marker_not_artifact: "\<not> artifact_test ''__stealth_patch_applied__''"
  by code_simp


lemma demo_artifact_names:
  "\<not> artifact_test ''document''"
  "artifact_test ''__webdriver''"
  "artifact_test ''_cdc_adoQpoasnfa76pfcZLmcfl''"
  "\<not> artifact_test ''cdc_marker''"
  "artifact_test ''_Selenium_IDE_Recorder''"
  "artifact_test ''__driver_evaluate''"
  "\<not> artifact_test ''name''"
  by code_simp+

lemma demo_sweep:
  "sweep demo_window =
     \<lparr>props = [(''document'', own (JObj []) False),
               (''cdc_marker'', own (JObj []) True),
               (''__driver_evaluate'', own (JFun JUndefined) False),
               (''name'', own (JStr []) True)],
      extensible = True\<rparr>"
  by (simp add: sweep_def demo_window_def try_delete_def delete_prop_def own_names_def
      sweep_names_def own_def demo_artifact_names)


lemma demo_patched_window:
  "window (patched demo_host) =
     Some \<lparr>props = [(''document'', own (JObj []) False),
                    (''cdc_marker'', own (JObj []) True),
                    (''__driver_evaluate'', own (JFun JUndefined) False),
                    (''name'', own (JStr []) True),
                    (''__stealth_patch_applied__'', own (JBool True) True)],
           extensible = True\<rparr>"
proof -
  have "window demo_host = Some demo_window" by (simp add: demo_host_def)
  then show ?thesis
    by (simp add: patched_window demo_sweep safeDefine_eq definable_def own_def)
qed

subsection \<open>The navigator after the script\<close>

lemma identity_props_eq:
  "identity_props nav =
     safeDefine (safeDefine (safeDefine (safeDefine nav ''languages'' (JArr [JStr ''en-US'', JStr ''en'']) True)
        ''platform'' (JStr ''Win32'') True) ''hardwareConcurrency'' (JNum 8) True)
        ''deviceMemory'' (JNum 8) True"
  by (simp add: identity_props_def Let_def)

lemma navigator_block_navigator:
  "navigator (snd (navigator_block h)) = map_option (\<lambda>nav. hide_webdriver (identity_props nav)) (navigator h)"
  "navigator_proto (snd (navigator_block h)) =
     (case navigator h of None \<Rightarrow> navigator_proto h
      | Some nav \<Rightarrow> map_option hide_webdriver (navigator_proto h))"
  by (simp_all add: navigator_block_def split: option.split)

lemma userAgentData_block_navigator:
  "navigator (snd (userAgentData_block h)) =
     map_option (userAgentData_fallback (navigator_proto h)) (navigator h)"
  by (simp add: userAgentData_block_def split: option.split)

lemma plugins_block_navigator:
  "navigator (snd (plugins_block h)) = map_option (fake_plugins (navigator_proto h)) (navigator h)"
  by (simp add: plugins_block_def split: option.split)

lemma patched_navigator_proto:
  "navigator_proto (patched h) =
     (case navigator h of None \<Rightarrow> navigator_proto h
      | Some nav \<Rightarrow> map_option hide_webdriver (navigator_proto h))"
  by (simp add: patched_unfold navigator_block_navigator)

lemma patched_navigator:
  "navigator (patched h) =
     map_option (\<lambda>nav. fake_plugins (map_option hide_webdriver (navigator_proto h))
        (userAgentData_fallback (map_option hide_webdriver (navigator_proto h))
           (hide_webdriver (identity_props nav)))) (navigator h)"
  by (cases "navigator h")
     (simp_all add: patched_unfold plugins_block_navigator userAgentData_block_navigator
        navigator_block_navigator)

lemma nav_get_cong:
  "map_of (props nav') n = map_of (props nav) n \<Longrightarrow>
   map_option (\<lambda>pr. map_of (props pr) n) proto' = map_option (\<lambda>pr. map_of (props pr) n) proto \<Longrightarrow>
   nav_get proto' nav' n = nav_get proto nav n"
  by (cases proto; cases proto') (auto simp: nav_get_def split: option.splits)

lemma map_of_identity_props:
  "n \<notin> {''languages'', ''platform'', ''hardwareConcurrency'', ''deviceMemory''} \<Longrightarrow>
   map_of (props (identity_props nav)) n = map_of (props nav) n"
  by (auto simp: identity_props_eq map_of_safeDefine)

lemma definable_identity_props [simp]: "definable (identity_props nav) n = definable nav n"
  by (simp add: identity_props_eq)

lemma map_of_hide_webdriver:
  "n \<noteq> ''webdriver'' \<Longrightarrow> map_of (props (hide_webdriver ob)) n = map_of (props ob) n"
  by (simp add: hide_webdriver_eq map_of_safeDefine)

lemma definable_hide_webdriver [simp]: "definable (hide_webdriver ob) n = definable ob n"
  by (simp add: hide_webdriver_eq)

lemma map_of_userAgentData_fallback:
  "n \<noteq> ''userAgentData'' \<Longrightarrow> map_of (props (userAgentData_fallback proto nav)) n = map_of (props nav) n"
  by (simp add: userAgentData_fallback_def map_of_safeDefine)

lemma definable_userAgentData_fallback [simp]:
  "definable (userAgentData_fallback proto nav) n = definable nav n"
  by (simp add: userAgentData_fallback_def)

lemma nav_get_own:
  "map_of (props nav) n = Some p \<Longrightarrow> nav_get proto nav n = pval p"
  by (simp add: nav_get_def)

lemma nav_get_safeDefine_other:
  "n \<noteq> m \<Longrightarrow> nav_get proto (safeDefine nav m v cfg) n = nav_get proto nav n"
  by (simp add: nav_get_def map_of_safeDefine)

lemma nav_get_safeDefine_same:
  "nav_get proto (safeDefine nav n v cfg) n = (if definable nav n then v else nav_get proto nav n)"
  by (simp add: nav_get_def map_of_safeDefine)

lemma fake_plugins_get:
  "nav_get proto (fake_plugins proto nav) ''plugins'' =
     (let P = nav_get proto nav ''plugins'' in
      if truthy P \<and> js_length P = JNum 0 \<and> definable nav ''plugins'' then pluginArray else P)"
  "nav_get proto (fake_plugins proto nav) ''mimeTypes'' =
     (let M = nav_get proto nav ''mimeTypes'' in
      if truthy M \<and> js_length M = JNum 0 \<and> definable nav ''mimeTypes'' then JArr [] else M)"
  by (auto simp: fake_plugins_def Let_def nav_get_safeDefine_other nav_get_safeDefine_same)

lemma nav_get_prepared:
  assumes "n \<notin> {''languages'', ''platform'', ''hardwareConcurrency'', ''deviceMemory'',
                 ''webdriver'', ''userAgentData''}"
  shows "nav_get (map_option hide_webdriver proto)
           (userAgentData_fallback (map_option hide_webdriver proto) (hide_webdriver (identity_props nav))) n =
         nav_get proto nav n"
proof (rule nav_get_cong)
  show "map_of (props (userAgentData_fallback (map_option hide_webdriver proto)
          (hide_webdriver (identity_props nav)))) n = map_of (props nav) n"
    using assms
    by (simp add: map_of_userAgentData_fallback map_of_hide_webdriver map_of_identity_props)
  show "map_option (\<lambda>pr. map_of (props pr) n) (map_option hide_webdriver proto) =
        map_option (\<lambda>pr. map_of (props pr) n) proto"
    using assms by (cases proto) (simp_all add: map_of_hide_webdriver)
qed

lemma map_of_fake_plugins:
  "map_of (props (fake_plugins proto nav)) n =
     (let P = nav_get proto nav ''plugins''; M = nav_get proto nav ''mimeTypes'' in
      if n = ''plugins'' \<and> truthy P \<and> js_length P = JNum 0 \<and> definable nav ''plugins''
      then Some \<lparr>pval = pluginArray, configurable = True\<rparr>
      else if n = ''mimeTypes'' \<and> truthy M \<and> js_length M = JNum 0 \<and> definable nav ''mimeTypes''
      then Some \<lparr>pval = JArr [], configurable = True\<rparr>
      else map_of (props nav) n)"
  by (auto simp: fake_plugins_def Let_def map_of_safeDefine nav_get_safeDefine_other)

lemma definable_fake_plugins [simp]: "definable (fake_plugins proto nav) n = definable nav n"
  by (simp add: fake_plugins_def Let_def)

lemma map_of_prepared:
  assumes "n \<notin> {''languages'', ''platform'', ''hardwareConcurrency'', ''deviceMemory'',
                 ''webdriver'', ''userAgentData''}"
  shows "map_of (props (userAgentData_fallback proto (hide_webdriver (identity_props nav)))) n =
         map_of (props nav) n"
  using assms
  by (simp add: map_of_userAgentData_fallback map_of_hide_webdriver map_of_identity_props)

lemma demo_navigator_reads:
  "navigator demo_host = Some \<lparr>props = [], extensible = True\<rparr>"
  "navigator_get demo_host ''plugins'' = Inr (JArr [])"
  "navigator_get demo_host ''mimeTypes'' = Inr (JArr [])"
  "navigator_own demo_host ''mimeTypes'' = None"
  by (simp_all add: demo_host_def navigator_get_def navigator_own_def nav_get_def
      demo_navigator_proto_def own_def)

lemma demo_patched_mimeTypes:
  "navigator_own (patched demo_host) ''mimeTypes'' = Some \<lparr>pval = JArr [], configurable = True\<rparr>"
proof -
  let ?nav = "\<lparr>props = [], extensible = True\<rparr>"
  let ?pr = "map_option hide_webdriver (navigator_proto demo_host)"
  let ?X = "userAgentData_fallback ?pr (hide_webdriver (identity_props ?nav))"
  have M: "nav_get (navigator_proto demo_host) ?nav ''mimeTypes'' = JArr []"
    by (simp add: demo_host_def nav_get_def demo_navigator_proto_def own_def)
  have gm: "nav_get ?pr ?X ''mimeTypes'' = JArr []"
    using nav_get_prepared [of "''mimeTypes''" "navigator_proto demo_host" ?nav] M by simp
  have d: "definable ?nav ''mimeTypes''" by (simp add: definable_def)
  show ?thesis
    by (simp add: navigator_own_def patched_navigator demo_navigator_reads(1)
        map_of_fake_plugins gm d Let_def)
qed

subsection \<open>The pixel noise\<close>

lemma length_pixel_noise_from [simp]: "length (pixel_noise_from i d) = length d"
proof (induction i d rule: pixel_noise_from.induct)
  case (1 i d)
  show ?case
  proof (cases "i < length d")
    case True
    with "1" show ?thesis by (subst pixel_noise_from.simps) simp
  next
    case False
    then show ?thesis by (subst pixel_noise_from.simps) simp
  qed
qed

lemma noise_cond_step:
  "j \<noteq> i \<Longrightarrow> (i \<le> j \<and> (j - i) mod 10 = 0) = (i + 10 \<le> j \<and> (j - (i + 10)) mod 10 = (0::nat))"
  by presburger

lemma nth_pixel_noise_from:
  "j < length d \<Longrightarrow>
   pixel_noise_from i d ! j =
     (if i \<le> j \<and> (j - i) mod 10 = 0 then (d ! j) XOR 0x11 else d ! j)"
proof (induction i d rule: pixel_noise_from.induct)
  case (1 i d)
  show ?case
  proof (cases "i < length d")
    case False
    then have "pixel_noise_from i d = d" by (subst pixel_noise_from.simps) simp
    moreover have "\<not> i \<le> j" using False "1.prems" by simp
    ultimately show ?thesis by simp
  next
    case True
    let ?d = "d[i := (d ! i) XOR 0x11]"
    have step: "pixel_noise_from i d = pixel_noise_from (i + 10) ?d"
      using True by (subst pixel_noise_from.simps) simp
    have len: "j < length ?d" using "1.prems" by simp
    have ih: "pixel_noise_from (i + 10) ?d ! j =
        (if i + 10 \<le> j \<and> (j - (i + 10)) mod 10 = 0 then (?d ! j) XOR 0x11 else ?d ! j)"
      by (rule "1.IH" [OF True len])
    show ?thesis
    proof (cases "j = i")
      case True
      have "\<not> i + 10 \<le> i" by simp
      then have "pixel_noise_from (i + 10) ?d ! i = ?d ! i" using ih True by simp
      moreover have "?d ! i = (d ! i) XOR 0x11" using \<open>i < length d\<close> by simp
      ultimately show ?thesis using step True by simp
    next
      case False
      have "?d ! j = d ! j" using False by simp
      then show ?thesis unfolding step ih noise_cond_step [OF False] by simp
    qed
  qed
qed
lemma nth_pixel_noise:
  "j < length d \<Longrightarrow> pixel_noise d ! j = (if j mod 10 = 0 then (d ! j) XOR 0x11 else d ! j)"
  by (simp add: pixel_noise_def nth_pixel_noise_from)

lemma length_pixel_noise [simp]: "length (pixel_noise d) = length d"
  by (simp add: pixel_noise_def)

lemma xor_0x11_neq: "(b :: u8) XOR 0x11 \<noteq> b"
proof
  assume "b XOR 0x11 = b"
  then have "b XOR (b XOR 0x11) = b XOR b" by simp
  then have "(0x11 :: u8) = 0" by (simp add: xor.assoc [symmetric])
  then show False by simp
qed

lemma xor_0x11_diff:
  "\<forall>b::u8. \<bar>int (unat (b XOR 0x11)) - int (unat b)\<bar> = 15 \<or>
           \<bar>int (unat (b XOR 0x11)) - int (unat b)\<bar> = 17"
  by code_simp

lemma pixel_noise_involution: "pixel_noise (pixel_noise d) = d"
  by (rule nth_equalityI) (simp_all add: nth_pixel_noise xor.assoc)

subsection \<open>The canvas touched by the \<open>toDataURL\<close> wrapper\<close>

lemma weights_transparent:
  "weights op 0 da = (0, if keeps_destination op then da else 0)"
  by (cases op) (simp_all add: keeps_destination_def)

lemma composite_pixel_transparent:
  "composite_pixel op (RGBA r g b 0) (dr, dg, db, da) =
     (if keeps_destination op \<or> da = 0 then (dr, dg, db, da) else (0, 0, 0, 0))"
  by (auto simp: composite_pixel_def weights_transparent Let_def unat_eq_0)

lemma map_pixels_cong:
  "(\<And>p d. f p d = g p d) \<Longrightarrow> map_pixels f n bs = map_pixels g n bs"
  by (induction f n bs rule: map_pixels.induct) (simp_all split: prod.split)

lemma map_pixels_id: "(\<And>p d. f p d = d) \<Longrightarrow> map_pixels f n bs = bs"
  by (induction f n bs rule: map_pixels.induct) simp_all

lemma map_pixels_idem:
  "(\<And>p d. f p (f p d) = f p d) \<Longrightarrow> map_pixels f n (map_pixels f n bs) = map_pixels f n bs"
proof (induction f n bs rule: map_pixels.induct)
  case (1 f p r g b a rest)
  obtain r' g' b' a' where e: "f p (r, g, b, a) = (r', g', b', a')"
    by (cases "f p (r, g, b, a)") auto
  have fp: "f p (r', g', b', a') = (r', g', b', a')"
    using "1.prems" [of p "(r, g, b, a)"] e by simp
  have ih: "map_pixels f (Suc p) (map_pixels f (Suc p) rest) = map_pixels f (Suc p) rest"
    by (rule "1.IH" [of r' "(g', b', a')" g' "(b', a')" b' a']) (simp_all add: e "1.prems")
  show ?case by (simp add: e fp ih)
qed simp_all

lemma length_map_pixels [simp]: "length (map_pixels f n bs) = length bs"
  by (induction f n bs rule: map_pixels.induct) (simp_all split: prod.split)

lemma fillRect_transparent:
  assumes "fill_style c = RGBA r g b 0"
  shows "fillRect_0_0_1_1 c =
           (if keeps_destination (composite c) then c
            else c\<lparr>bitmap := clear_clipped (clip c) (bitmap c)\<rparr>)"
proof (cases "keeps_destination (composite c)")
  case True
  have "map_pixels
          (\<lambda>p dst. if clip c p
                    then composite_pixel (composite c)
                           (if p = 0 \<and> 0 < cwidth c \<and> 0 < cheight c then fill_style c
                            else RGBA 0 0 0 0) dst
                    else dst) 0 (bitmap c) = bitmap c"
    by (rule map_pixels_id) (auto simp: assms True composite_pixel_transparent)
  then show ?thesis using True by (simp add: fillRect_0_0_1_1_def)
next
  case False
  have "map_pixels
          (\<lambda>p dst. if clip c p
                    then composite_pixel (composite c)
                           (if p = 0 \<and> 0 < cwidth c \<and> 0 < cheight c then fill_style c
                            else RGBA 0 0 0 0) dst
                    else dst) 0 (bitmap c) = clear_clipped (clip c) (bitmap c)"
    unfolding clear_clipped_def
    by (rule map_pixels_cong) (auto simp: assms False composite_pixel_transparent)
  then show ?thesis using False by (simp add: fillRect_0_0_1_1_def)
qed

lemma clear_clipped_idem [simp]: "clear_clipped cl (clear_clipped cl bs) = clear_clipped cl bs"
  unfolding clear_clipped_def by (rule map_pixels_idem) auto

lemma keeps_destination_SourceOver [simp]: "keeps_destination SourceOver"
  by (simp add: keeps_destination_def)

lemma touch_canvas_eq:
  "touch_canvas c =
     (case ctx_mode c of
        NoContext \<Rightarrow>
          c\<lparr>ctx_mode := Context2D, fill_style := RGBA 0 0 0 0, composite := SourceOver,
             clip := (\<lambda>p. True)\<rparr>
      | Context2D \<Rightarrow>
          if keeps_destination (composite c) then c\<lparr>fill_style := RGBA 0 0 0 0\<rparr>
          else c\<lparr>fill_style := RGBA 0 0 0 0, bitmap := clear_clipped (clip c) (bitmap c)\<rparr>
      | OtherContext \<Rightarrow> c)"
  by (simp add: touch_canvas_def getContext2d_def fillRect_transparent split: ctx_mode.split)

lemma touch_canvas_idem [simp]: "touch_canvas (touch_canvas c) = touch_canvas c"
  by (simp add: touch_canvas_eq split: ctx_mode.split)

lemma wrap_toDataURL_idem [simp]: "wrap_toDataURL (wrap_toDataURL f) = wrap_toDataURL f"
  by (rule ext) (simp add: wrap_toDataURL_def)

lemma demo_toDataURL:
  "toDataURL demo_host = Some (\<lambda>c. (Inr (map (\<lambda>b. char_of (unat b)) (bitmap c)), c))"
  by (simp add: demo_host_def)

lemma demo_clear: "clear_clipped (\<lambda>p. True) (bitmap demo_canvas) = [0, 0, 0, 0, 0, 0, 0, 0, 0, 0, 0, 0]"
  by (simp add: clear_clipped_def demo_canvas_def)

subsection \<open>The audio wrapper on an engine that returns the buffer's own array\<close>

lemma audio_noise_singleton: "audio_noise_from f 0 [x] = [f x]"
  by (subst audio_noise_from.simps, simp, subst audio_noise_from.simps, simp)

lemma audio_noise_short: "length d \<le> 100 \<Longrightarrow> d \<noteq> [] \<Longrightarrow> audio_noise_from f 0 d = d[0 := f (d ! 0)]"
  by (subst audio_noise_from.simps, simp, subst audio_noise_from.simps, simp)

lemma getChannelData_live_twice:
  assumes "getChannelData h = Some (\<lambda>hp this ch. (Inr this, hp))"
    and "hp a = Some d" and "d \<noteq> []" and "length d \<le> 100"
  shows "call_getChannelData (patched h) hp a ch = (Inr a, hp(a \<mapsto> d[0 := f32_add_eps h (d ! 0)]))"
    and "call_getChannelData (patched h) (hp(a \<mapsto> d[0 := f32_add_eps h (d ! 0)])) a ch =
           (Inr a, hp(a \<mapsto> d[0 := f32_add_eps h (f32_add_eps h (d ! 0))]))"
  using assms
  by (simp_all add: call_getChannelData_def patched_getChannelData wrap_getChannelData_def
      audio_noise_short)

subsection \<open>Running the script a second time\<close>

lemma wrap_getImageData_twice: "wrap_getImageData (wrap_getImageData f) = f"
  by (rule ext, rule ext) (simp add: wrap_getImageData_def pixel_noise_involution split: sum.split)

lemma wrap_getParameter_idem: "wrap_getParameter (wrap_getParameter f) = wrap_getParameter f"
  by (rule ext, rule ext) (simp add: wrap_getParameter_def)

lemma wrap_query_idem: "wrap_query (wrap_query f) = wrap_query f"
  by (rule ext, rule ext) (simp add: wrap_query_def split: option.split)

lemma permissions_block_permissions:
  "permissions (snd (permissions_block h)) =
     (case navigator h of None \<Rightarrow> permissions h
      | Some nav \<Rightarrow> map_option (map_option wrap_query) (permissions h))"
  by (auto simp: permissions_block_def split: option.split)

lemma permissions_frame [simp]:
  "permissions (snd (artifact_block h)) = permissions h"
  "permissions (snd (plugins_block h)) = permissions h"
  "permissions (snd (marker_block h)) = permissions h"
  by simp_all

lemma navigator_None_frame [simp]:
  "(navigator (snd (navigator_block h)) = None) = (navigator h = None)"
  "(navigator (snd (userAgentData_block h)) = None) = (navigator h = None)"
  by (simp_all add: navigator_block_navigator userAgentData_block_navigator)

lemma patched_permissions:
  "permissions (patched h) =
     (case navigator h of None \<Rightarrow> permissions h
      | Some nav \<Rightarrow> map_option (map_option wrap_query) (permissions h))"
  by (cases "navigator h")
     (auto simp: patched_unfold permissions_block_permissions navigator_block_navigator
        userAgentData_block_navigator split: option.split)

lemma patched_twice_functions:
  "toDataURL (patched (patched h)) = toDataURL (patched h)"
  "getParameter (patched (patched h)) = getParameter (patched h)"
  "getImageData (patched (patched h)) = getImageData h"
  "getChannelData (patched (patched h)) =
     map_option (\<lambda>f. wrap_getChannelData (f32_add_eps h) (wrap_getChannelData (f32_add_eps h) f))
       (getChannelData h)"
  by (simp_all add: patched_toDataURL patched_getParameter patched_getImageData
      patched_getChannelData patched_f32_add_eps option.map_comp comp_def
      wrap_getParameter_idem wrap_getImageData_twice option.map_ident split: option.split)

lemma patched_twice_permissions: "permissions (patched (patched h)) = permissions (patched h)"
  by (cases "navigator h"; cases "permissions h")
     (auto simp: patched_permissions patched_navigator option.map_comp comp_def wrap_query_idem
        split: option.split)

lemma try_delete_fixed:
  "locked ob k \<or> k \<notin> set (own_names ob) \<Longrightarrow> try_delete ob k = ob"
  by (auto simp: try_delete_def delete_prop_def locked_def own_names_def
      map_of_eq_None_iff [symmetric] split: option.split)

lemma sweep_names_fixed:
  "\<forall>k\<in>set ns. artifact_test k \<longrightarrow> locked ob k \<or> k \<notin> set (own_names ob) \<Longrightarrow>
   sweep_names ob ns = ob"
  by (induction ns) (simp_all add: sweep_names_def try_delete_fixed)

lemma sweep_fixed:
  assumes "\<forall>k. artifact_test k \<longrightarrow> locked ob k \<or> k \<notin> set (own_names ob)"
  shows "sweep ob = ob"
proof -
  have a: "artifact_test ''__webdriver''" and b: "artifact_test ''_webdriver''" by code_simp+
  have 1: "try_delete ob ''__webdriver'' = ob" using assms a by (simp add: try_delete_fixed)
  have 2: "try_delete ob ''_webdriver'' = ob" using assms b by (simp add: try_delete_fixed)
  have 3: "sweep_names ob (own_names ob) = ob"
    by (rule sweep_names_fixed) (use assms in blast)
  show ?thesis
    by (simp add: sweep_def Let_def 1 2 3)
qed

lemma marked_sweep_fixed:
  "sweep (safeDefine (sweep w) ''__stealth_patch_applied__'' (JBool True) True) =
     safeDefine (sweep w) ''__stealth_patch_applied__'' (JBool True) True"
proof (rule sweep_fixed, intro allI impI)
  fix k assume k: "artifact_test k"
  then have "k \<noteq> ''__stealth_patch_applied__''" using marker_not_artifact by auto
  then show "locked (safeDefine (sweep w) ''__stealth_patch_applied__'' (JBool True) True) k \<or>
        k \<notin> set (own_names (safeDefine (sweep w) ''__stealth_patch_applied__'' (JBool True) True))"
    using k by (auto simp: set_names_safeDefine set_names_sweep split: if_splits)
qed

lemma safeDefine_idem [simp]: "safeDefine (safeDefine ob n v True) n v True = safeDefine ob n v True"
  by (simp add: safeDefine_settled map_of_safeDefine)

lemma patched_twice_window: "window (patched (patched h)) = window (patched h)"
  by (cases "window h") (simp_all add: patched_window marked_sweep_fixed)

lemma settled_fixed: "settled ob n v \<Longrightarrow> safeDefine ob n v True = ob"
  by (simp add: settled_def safeDefine_settled)

lemma settled_safeDefine:
  "settled (safeDefine ob m w True) n v = (if n = m then w = v \<or> \<not> definable ob n else settled ob n v)"
  by (auto simp: settled_def map_of_safeDefine)

lemma settled_hide_webdriver:
  "settled (hide_webdriver ob) n v =
     (if n = ''webdriver'' then v = JUndefined \<or> \<not> definable ob n else settled ob n v)"
  by (auto simp: hide_webdriver_eq settled_safeDefine)

lemma settled_identity_props:
  "settled (identity_props ob) ''languages'' (JArr [JStr ''en-US'', JStr ''en''])"
  "settled (identity_props ob) ''platform'' (JStr ''Win32'')"
  "settled (identity_props ob) ''hardwareConcurrency'' (JNum 8)"
  "settled (identity_props ob) ''deviceMemory'' (JNum 8)"
  "n \<notin> {''languages'', ''platform'', ''hardwareConcurrency'', ''deviceMemory''} \<Longrightarrow>
     settled (identity_props ob) n v = settled ob n v"
  by (simp_all add: identity_props_eq settled_safeDefine)

lemma settled_userAgentData_fallback:
  "n \<noteq> ''userAgentData'' \<Longrightarrow> settled (userAgentData_fallback proto ob) n v = settled ob n v"
  by (simp add: userAgentData_fallback_def settled_safeDefine)

lemma settled_fake_plugins:
  "n \<notin> {''plugins'', ''mimeTypes''} \<Longrightarrow> settled (fake_plugins proto ob) n v = settled ob n v"
  by (simp add: fake_plugins_def Let_def settled_safeDefine)

lemma identity_props_fixed:
  assumes "settled ob ''languages'' (JArr [JStr ''en-US'', JStr ''en''])"
    and "settled ob ''platform'' (JStr ''Win32'')"
    and "settled ob ''hardwareConcurrency'' (JNum 8)"
    and "settled ob ''deviceMemory'' (JNum 8)"
  shows "identity_props ob = ob"
  using assms by (simp add: identity_props_eq settled_fixed)

lemma hide_webdriver_fixed: "settled ob ''webdriver'' JUndefined \<Longrightarrow> hide_webdriver ob = ob"
  by (simp add: hide_webdriver_eq settled_fixed)

lemma hide_webdriver_idem [simp]: "hide_webdriver (hide_webdriver ob) = hide_webdriver ob"
  by (simp add: hide_webdriver_eq)

lemma nav_get_fake_plugins_other:
  "n \<notin> {''plugins'', ''mimeTypes''} \<Longrightarrow> nav_get proto (fake_plugins proto' nav) n = nav_get proto nav n"
  by (simp add: nav_get_def map_of_fake_plugins Let_def)

lemma userAgentData_fallback_fixed:
  "userAgentData_fallback proto (fake_plugins proto (userAgentData_fallback proto ob)) =
     fake_plugins proto (userAgentData_fallback proto ob)"
proof (cases "nav_get proto ob ''userAgentData'' = JUndefined")
  case True
  then have "settled (fake_plugins proto (userAgentData_fallback proto ob)) ''userAgentData'' fake_userAgentData"
    by (simp add: settled_fake_plugins userAgentData_fallback_def settled_safeDefine)
  then show ?thesis
    by (simp add: userAgentData_fallback_def [of proto "fake_plugins proto _"] settled_fixed)
next
  case False
  then have "nav_get proto (fake_plugins proto (userAgentData_fallback proto ob)) ''userAgentData'' \<noteq> JUndefined"
    by (simp add: nav_get_fake_plugins_other userAgentData_fallback_def)
  then show ?thesis
    by (simp add: userAgentData_fallback_def [of proto "fake_plugins proto _"])
qed

lemma fake_plugins_idem: "fake_plugins proto (fake_plugins proto ob) = fake_plugins proto ob"
proof -
  let ?X = "fake_plugins proto ob"
  have pa: "js_length pluginArray \<noteq> JNum 0" by (simp add: pluginArray_def)
  have sp: "truthy (nav_get proto ?X ''plugins'') \<and> js_length (nav_get proto ?X ''plugins'') = JNum 0
      \<longrightarrow> \<not> definable ?X ''plugins''"
    using pa by (auto simp: fake_plugins_get Let_def split: if_splits)
  have 1: "(if truthy (nav_get proto ?X ''plugins'') \<and> js_length (nav_get proto ?X ''plugins'') = JNum 0
            then safeDefine ?X ''plugins'' pluginArray True else ?X) = ?X"
    using sp by (auto simp: safeDefine_settled)
  have sm: "truthy (nav_get proto ?X ''mimeTypes'') \<and> js_length (nav_get proto ?X ''mimeTypes'') = JNum 0
      \<longrightarrow> settled ?X ''mimeTypes'' (JArr [])"
    by (auto simp: fake_plugins_get settled_def map_of_fake_plugins Let_def split: if_splits)
  have 2: "(if truthy (nav_get proto ?X ''mimeTypes'') \<and> js_length (nav_get proto ?X ''mimeTypes'') = JNum 0
            then safeDefine ?X ''mimeTypes'' (JArr []) True else ?X) = ?X"
    using sm by (auto simp: settled_fixed)
  show ?thesis
    by (subst fake_plugins_def) (simp only: Let_def 1 2)
qed

lemma navigator_twice:
  assumes "proto' = map_option hide_webdriver proto"
  shows "fake_plugins proto' (userAgentData_fallback proto' (hide_webdriver (identity_props
           (fake_plugins proto' (userAgentData_fallback proto' (hide_webdriver (identity_props nav))))))) =
         fake_plugins proto' (userAgentData_fallback proto' (hide_webdriver (identity_props nav)))"
proof -
  let ?Y = "hide_webdriver (identity_props nav)"
  let ?X = "fake_plugins proto' (userAgentData_fallback proto' ?Y)"
  have 1: "identity_props ?X = ?X"
    by (rule identity_props_fixed)
       (simp_all add: settled_fake_plugins settled_userAgentData_fallback settled_hide_webdriver
          settled_identity_props)
  have 2: "hide_webdriver ?X = ?X"
    by (rule hide_webdriver_fixed)
       (simp add: settled_fake_plugins settled_userAgentData_fallback settled_hide_webdriver)
  show ?thesis
    by (simp add: 1 2 userAgentData_fallback_fixed fake_plugins_idem)
qed

lemma patched_twice_navigator:
  "navigator (patched (patched h)) = navigator (patched h)"
  "navigator_proto (patched (patched h)) = navigator_proto (patched h)"
proof -
  show "navigator_proto (patched (patched h)) = navigator_proto (patched h)"
    by (cases "navigator h"; cases "navigator_proto h")
       (simp_all add: patched_navigator_proto patched_navigator)
  show "navigator (patched (patched h)) = navigator (patched h)"
  proof (cases "navigator h")
    case None
    then show ?thesis by (simp add: patched_navigator)
  next
    case (Some nav)
    have pr: "navigator_proto (patched h) = map_option hide_webdriver (navigator_proto h)"
      by (simp add: patched_navigator_proto Some)
    have idem: "map_option hide_webdriver (map_option hide_webdriver (navigator_proto h)) =
        map_option hide_webdriver (navigator_proto h)"
      by (cases "navigator_proto h") simp_all
    show ?thesis
      unfolding patched_navigator [of "patched h"] pr idem
      by (simp add: patched_navigator Some navigator_twice)
  qed
qed


section \<open>The claims\<close>

subsection \<open>C1\<close>

text \<open>
  C1, as stated, for \<open>getImageData\<close>: the script has no guard against a second run,
  so the second run wraps the wrapper. The function installed after two runs XORs
  \<open>0x11\<close> twice and returns the native bytes, not the bytes the function installed
  after one run returns.
\<close>

theorem apply_twice_getImageData_counterexample:
  "call_getImageData (patched demo_host) demo_canvas (0, 0, 3, 1) =
     Inr [217, 100, 50, 255, 0, 0, 0, 255, 7, 8, 24, 255] \<and>
   call_getImageData (patched (patched demo_host)) demo_canvas (0, 0, 3, 1) =
     Inr [200, 100, 50, 255, 0, 0, 0, 255, 7, 8, 9, 255] \<and>
   call_getImageData (patched (patched demo_host)) demo_canvas (0, 0, 3, 1) \<noteq>
     call_getImageData (patched demo_host) demo_canvas (0, 0, 3, 1)"
proof -
  have t: "toDataURL demo_host \<noteq> None" by (simp add: demo_host_def)
  have g: "getImageData demo_host = Some (\<lambda>c r. Inr (bitmap c))" by (simp add: demo_host_def)
  have e: "pixel_noise (bitmap demo_canvas) = [217, 100, 50, 255, 0, 0, 0, 255, 7, 8, 24, 255]"
    by code_simp
  have 1: "call_getImageData (patched demo_host) demo_canvas (0, 0, 3, 1) =
      Inr (pixel_noise (bitmap demo_canvas))"
    using t by (auto simp: call_getImageData_def patched_getImageData g wrap_getImageData_def)
  have 2: "call_getImageData (patched (patched demo_host)) demo_canvas (0, 0, 3, 1) =
      Inr (bitmap demo_canvas)"
    by (simp add: call_getImageData_def patched_twice_functions g)
  show ?thesis
    using 1 2 e by (simp add: demo_canvas_def)
qed

text \<open>
  C1, amended. Running the script a second time on the same host raises no error and
  leaves the navigator and its prototype, the own properties of the global object, and
  the behaviour of \<open>permissions.query\<close>, \<open>toDataURL\<close> and \<open>getParameter\<close> as they are
  after one run. The \<open>getImageData\<close> installed after two runs applies the XOR twice
  and so behaves as the \<open>getImageData\<close> of the host before the script; the
  \<open>getChannelData\<close> installed after two runs applies the audio perturbation twice in
  every call.
\<close>

theorem apply_twice:
  "fst (stealth_patch (patched h)) = None \<and>
   navigator (patched (patched h)) = navigator (patched h) \<and>
   navigator_proto (patched (patched h)) = navigator_proto (patched h) \<and>
   window (patched (patched h)) = window (patched h) \<and>
   permissions (patched (patched h)) = permissions (patched h) \<and>
   toDataURL (patched (patched h)) = toDataURL (patched h) \<and>
   getParameter (patched (patched h)) = getParameter (patched h) \<and>
   getImageData (patched (patched h)) = getImageData h \<and>
   getChannelData (patched (patched h)) =
     map_option (\<lambda>f. wrap_getChannelData (f32_add_eps h) (wrap_getChannelData (f32_add_eps h) f))
       (getChannelData h)"
  by (simp only: stealth_patch_completes patched_twice_navigator patched_twice_window
      patched_twice_permissions patched_twice_functions simp_thms)

theorem apply_twice_witness:
  "fst (stealth_patch (patched demo_host)) = None \<and>
   window (patched (patched demo_host)) = window (patched demo_host) \<and>
   navigator (patched (patched demo_host)) = navigator (patched demo_host) \<and>
   call_getParameter (patched (patched demo_host)) 0 (JNum 37445) = Inr (JStr ''Intel Inc.'') \<and>
   call_getImageData (patched (patched demo_host)) demo_canvas (0, 0, 3, 1) =
     call_getImageData demo_host demo_canvas (0, 0, 3, 1)"
  using apply_twice [of demo_host]
  by (simp add: call_getImageData_def call_getParameter_def patched_getParameter
      wrap_getParameter_def demo_host_def)

subsection \<open>C2\<close>

text \<open>
  C2. Where the canvas patch is installed, the patched \<open>getImageData\<close> returns the
  buffer of the original with exactly the bytes at the indices 0, 10, 20, ... replaced
  by their XOR with \<open>0x11\<close> and every other byte unchanged: the length is kept, each
  byte at a multiple of 10 differs from the original's, and two calls for which the
  original returns the same bytes return the same bytes.
\<close>

theorem getImageData_patched_noise:
  assumes "toDataURL h \<noteq> None" and "call_getImageData h c r = Inr d"
  shows "call_getImageData (patched h) c r = Inr (pixel_noise d) \<and>
         length (pixel_noise d) = length d \<and>
         (\<forall>j<length d. pixel_noise d ! j = (if j mod 10 = 0 then (d ! j) XOR 0x11 else d ! j)) \<and>
         (\<forall>k. 10 * k < length d \<longrightarrow> pixel_noise d ! (10 * k) \<noteq> d ! (10 * k)) \<and>
         (\<forall>c' r'. call_getImageData h c' r' = Inr d \<longrightarrow>
                  call_getImageData (patched h) c' r' = call_getImageData (patched h) c r)"
proof -
  from assms obtain t f where t: "toDataURL h = Some t" and f: "getImageData h = Some f"
    by (auto simp: call_getImageData_def split: option.splits)
  have p: "getImageData (patched h) = Some (wrap_getImageData f)"
    by (simp add: patched_getImageData t f)
  have call: "\<And>c' r'. call_getImageData h c' r' = Inr d \<Longrightarrow>
      call_getImageData (patched h) c' r' = Inr (pixel_noise d)"
    by (simp add: call_getImageData_def p f wrap_getImageData_def)
  have "\<And>k. 10 * k < length d \<Longrightarrow> pixel_noise d ! (10 * k) \<noteq> d ! (10 * k)"
    by (simp add: nth_pixel_noise xor_0x11_neq)
  then show ?thesis
    using call assms(2) by (simp add: nth_pixel_noise)
qed

theorem getImageData_patched_noise_witness:
  "toDataURL demo_host \<noteq> None \<and>
   call_getImageData demo_host demo_canvas (0, 0, 3, 1) =
     Inr [200, 100, 50, 255, 0, 0, 0, 255, 7, 8, 9, 255] \<and>
   call_getImageData (patched demo_host) demo_canvas (0, 0, 3, 1) =
     Inr [217, 100, 50, 255, 0, 0, 0, 255, 7, 8, 24, 255]"
proof -
  have h1: "toDataURL demo_host \<noteq> None"
    by (simp add: demo_host_def)
  have h2: "call_getImageData demo_host demo_canvas (0, 0, 3, 1) = Inr (bitmap demo_canvas)"
    by (simp add: demo_host_def call_getImageData_def)
  have e: "pixel_noise (bitmap demo_canvas) = [217, 100, 50, 255, 0, 0, 0, 255, 7, 8, 24, 255]"
    by code_simp
  have "call_getImageData (patched demo_host) demo_canvas (0, 0, 3, 1) =
      Inr (pixel_noise (bitmap demo_canvas))"
    using getImageData_patched_noise [OF h1 h2] by (rule conjunct1)
  with h1 h2 e show ?thesis by (simp add: demo_canvas_def)
qed

subsection \<open>C3\<close>

text \<open>
  C3. The script never raises to its caller, whatever the host; and on a host without
  \<open>WebGLRenderingContext\<close> it completes and leaves every other part of the host
  exactly as it leaves it on the same host with WebGL: the navigator properties, the
  canvas and audio wrappers, the \<open>permissions.query\<close> wrapper, the plugin lists, the
  sweep of the global object and the marker are installed or performed as usual.
\<close>

theorem no_webgl_still_patched:
  "fst (stealth_patch h) = None \<and>
   fst (stealth_patch (h\<lparr>getParameter := None\<rparr>)) = None \<and>
   patched (h\<lparr>getParameter := None\<rparr>) = (patched h)\<lparr>getParameter := None\<rparr> \<and>
   navigator (patched (h\<lparr>getParameter := None\<rparr>)) =
     map_option (\<lambda>nav. fake_plugins (map_option hide_webdriver (navigator_proto h))
        (userAgentData_fallback (map_option hide_webdriver (navigator_proto h))
           (hide_webdriver (identity_props nav)))) (navigator h) \<and>
   toDataURL (patched (h\<lparr>getParameter := None\<rparr>)) = map_option wrap_toDataURL (toDataURL h) \<and>
   getImageData (patched (h\<lparr>getParameter := None\<rparr>)) =
     (case toDataURL h of None \<Rightarrow> getImageData h
      | Some t \<Rightarrow> map_option wrap_getImageData (getImageData h)) \<and>
   getChannelData (patched (h\<lparr>getParameter := None\<rparr>)) =
     map_option (wrap_getChannelData (f32_add_eps h)) (getChannelData h) \<and>
   permissions (patched (h\<lparr>getParameter := None\<rparr>)) =
     (case navigator h of None \<Rightarrow> permissions h
      | Some nav \<Rightarrow> map_option (map_option wrap_query) (permissions h)) \<and>
   window (patched (h\<lparr>getParameter := None\<rparr>)) =
     map_option (\<lambda>w. safeDefine (sweep w) ''__stealth_patch_applied__'' (JBool True) True) (window h)"
proof -
  have "patched (h\<lparr>getParameter := None\<rparr>) = (patched h)\<lparr>getParameter := None\<rparr>"
    by (simp add: patched_unfold no_webgl)
  then show ?thesis
    by (simp add: stealth_patch_completes patched_navigator patched_toDataURL
        patched_getImageData patched_getChannelData patched_permissions patched_window)
qed

theorem no_webgl_still_patched_witness:
  "fst (stealth_patch (demo_host\<lparr>getParameter := None\<rparr>)) = None \<and>
   call_getImageData (patched (demo_host\<lparr>getParameter := None\<rparr>)) demo_canvas (0, 0, 3, 1) =
     call_getImageData (patched demo_host) demo_canvas (0, 0, 3, 1) \<and>
   window (patched (demo_host\<lparr>getParameter := None\<rparr>)) = window (patched demo_host) \<and>
   navigator (patched (demo_host\<lparr>getParameter := None\<rparr>)) = navigator (patched demo_host)"
  using no_webgl_still_patched [of demo_host] by (simp add: call_getImageData_def)

subsection \<open>C4\<close>

text \<open>
  C4, as stated, at the parameter code 37446 (\<open>UNMASKED_RENDERER_WEBGL\<close>): it is a
  code other than 37445, and the patched function does not return what the native one
  returns for it.
\<close>

theorem getParameter_renderer_counterexample:
  "JNum 37446 \<noteq> JNum 37445 \<and>
   call_getParameter demo_host 0 (JNum 37446) = Inr (JStr ''ANGLE (NVIDIA GeForce)'') \<and>
   call_getParameter (patched demo_host) 0 (JNum 37446) = Inr (JStr ''Intel Iris OpenGL Engine'') \<and>
   call_getParameter (patched demo_host) 0 (JNum 37446) \<noteq> call_getParameter demo_host 0 (JNum 37446)"
  by (simp add: call_getParameter_def patched_getParameter wrap_getParameter_def
      demo_host_def demo_getParameter_def)

text \<open>
  C4, amended. Where \<open>WebGLRenderingContext\<close> is defined, the patched \<open>getParameter\<close>
  returns the fixed vendor string for the code 37445 and the fixed renderer string for
  the code 37446, whatever the receiver, and for every other argument exactly the
  result of the native \<open>getParameter\<close>.
\<close>

theorem getParameter_patched:
  assumes "getParameter h \<noteq> None"
  shows "call_getParameter (patched h) this (JNum 37445) = Inr (JStr ''Intel Inc.'') \<and>
         call_getParameter (patched h) this (JNum 37446) = Inr (JStr ''Intel Iris OpenGL Engine'') \<and>
         (\<forall>param. param \<noteq> JNum 37445 \<and> param \<noteq> JNum 37446 \<longrightarrow>
            call_getParameter (patched h) this param = call_getParameter h this param)"
  using assms
  by (auto simp: call_getParameter_def patched_getParameter wrap_getParameter_def)

theorem getParameter_patched_witness:
  "getParameter demo_host \<noteq> None \<and>
   call_getParameter (patched demo_host) 0 (JNum 37445) = Inr (JStr ''Intel Inc.'') \<and>
   call_getParameter (patched demo_host) 0 (JNum 7936) = Inr (JStr ''WebKit'')"
proof -
  have h: "getParameter demo_host \<noteq> None" by (simp add: demo_host_def)
  have n: "call_getParameter demo_host 0 (JNum 7936) = Inr (JStr ''WebKit'')"
    by (simp add: demo_host_def call_getParameter_def demo_getParameter_def)
  from getParameter_patched [OF h, of 0] h n show ?thesis by simp
qed

subsection \<open>C5\<close>

text \<open>
  C5, as stated: the artifact sweep is not after every other patch step. The
  permissions patch and the plugin patch are among the steps that follow it.
\<close>

theorem steps_after_artifact_sweep_counterexample:
  "Permissions \<in> set (tl (dropWhile (\<lambda>s. s \<noteq> ArtifactSweep) patch_steps)) \<and>
   Plugins \<in> set (tl (dropWhile (\<lambda>s. s \<noteq> ArtifactSweep) patch_steps))"
  by (simp add: patch_steps_def)

text \<open>
  C5, amended. Within one invocation the blocks run in the order: navigator identity,
  userAgentData, canvas, WebGL, audio, artifact sweep, permissions, plugins and
  mimeTypes, applied marker. The sweep of the global object runs after the identity,
  userAgentData, canvas, WebGL and audio patches and before the permissions patch, the
  plugin patch and the marker.
\<close>

theorem patch_order:
  "stealth_patch h =
     run_steps [try_catch navigator_block, try_catch userAgentData_block, try_catch canvas_block,
                try_catch webgl_block, try_catch audio_block, try_catch artifact_block,
                try_catch permissions_block, try_catch plugins_block, try_catch marker_block] h \<and>
   takeWhile (\<lambda>s. s \<noteq> ArtifactSweep) patch_steps =
     [NavigatorIdentity, UserAgentData, Canvas, WebGL, Audio] \<and>
   dropWhile (\<lambda>s. s \<noteq> ArtifactSweep) patch_steps =
     [ArtifactSweep, Permissions, Plugins, AppliedMarker]"
  by (simp add: stealth_patch_def patch_steps_def)

theorem patch_order_witness:
  "stealth_patch demo_host =
     run_steps [try_catch navigator_block, try_catch userAgentData_block, try_catch canvas_block,
                try_catch webgl_block, try_catch audio_block, try_catch artifact_block,
                try_catch permissions_block, try_catch plugins_block, try_catch marker_block]
       demo_host"
  using patch_order [of demo_host] by (rule conjunct1)

subsection \<open>C6\<close>

text \<open>
  C6, as stated, on a global object that carries the marker \<open>__driver_evaluate\<close> as a
  property that is not configurable: the name matches the pattern and is still an own
  property after the script (the deletion throws in strict code and the script ignores
  it). The name \<open>cdc_marker\<close> stays as well: the pattern asks for one or two
  underscores before \<open>cdc_\<close>.
\<close>

theorem sweep_leaves_locked_counterexample:
  "artifact_test ''__driver_evaluate'' \<and>
   window_names (patched demo_host) =
     [''document'', ''cdc_marker'', ''__driver_evaluate'', ''name'', ''__stealth_patch_applied__'']"
  by (simp add: window_names_def demo_patched_window own_names_def demo_artifact_names)

text \<open>
  C6, amended. After the script has run, a name that matches the pattern
  \<^verbatim>\<open>/^__?cdc_|webdriver|__driver|selenium|driver/i\<close> is an own property of the global
  object exactly when it was one before as a property that is not configurable: every
  matching property that can be deleted is gone, also when it was present before.
  Names that do not match are kept, and the only name added is the marker.
\<close>

theorem sweep_removes_deletable:
  assumes "window h = Some w"
  shows "(artifact_test k \<longrightarrow> (k \<in> set (window_names (patched h)) \<longleftrightarrow> locked w k)) \<and>
         (\<not> artifact_test k \<and> k \<noteq> ''__stealth_patch_applied__'' \<longrightarrow>
            (k \<in> set (window_names (patched h)) \<longleftrightarrow> k \<in> set (own_names w)))"
  using assms marker_not_artifact
  by (auto simp: window_names_def patched_window set_names_safeDefine set_names_sweep
      dest: locked_in_names split: if_splits)

theorem sweep_removes_deletable_witness:
  "window demo_host = Some demo_window \<and>
   artifact_test ''_cdc_adoQpoasnfa76pfcZLmcfl'' \<and>
   ''_cdc_adoQpoasnfa76pfcZLmcfl'' \<in> set (own_names demo_window) \<and>
   ''_cdc_adoQpoasnfa76pfcZLmcfl'' \<notin> set (window_names (patched demo_host))"
proof -
  have w: "window demo_host = Some demo_window" by (simp add: demo_host_def)
  have l: "\<not> locked demo_window ''_cdc_adoQpoasnfa76pfcZLmcfl''"
    by (simp add: locked_def demo_window_def own_def)
  have n: "''_cdc_adoQpoasnfa76pfcZLmcfl'' \<in> set (own_names demo_window)"
    by (simp add: own_names_def demo_window_def)
  from sweep_removes_deletable [OF w, of "''_cdc_adoQpoasnfa76pfcZLmcfl''"] w l n
  show ?thesis by (simp add: demo_artifact_names)
qed

subsection \<open>C7\<close>

text \<open>
  C7, as stated, on a canvas with drawn content and a 2D context in its default state:
  the output of the patched \<open>toDataURL\<close> is the output of the unpatched one.
\<close>

theorem toDataURL_unchanged_counterexample:
  "fst (call_toDataURL (patched demo_host) demo_canvas) = fst (call_toDataURL demo_host demo_canvas)"
  by (simp add: call_toDataURL_def patched_toDataURL demo_toDataURL wrap_toDataURL_def
      touch_canvas_eq demo_canvas_def)

text \<open>
  C7, amended. The patched \<open>toDataURL\<close> gets the canvas's 2D context (creating it, in
  the default state, on a canvas that has none; on a canvas bound to another context
  type it does nothing), sets the fill style to the fully transparent colour and fills
  the 1x1 rectangle at the origin, then returns what the original encoder returns for
  that canvas. Under the default composite operation \<open>source-over\<close>, and under every
  other operation that keeps the destination where the source is transparent, the
  bitmap is as it was, so for an encoder that reads the bitmap and the dimensions the
  exported data are those of the unpatched \<open>toDataURL\<close>. Under \<open>copy\<close>,
  \<open>source-in\<close>, \<open>source-out\<close>, \<open>destination-in\<close> and \<open>destination-atop\<close> the fill
  clears the pixels of the clipping region and the export is that of the cleared
  bitmap. The XOR noise of \<open>getImageData\<close> is never applied to the export.
\<close>

theorem toDataURL_patched_output:
  assumes "toDataURL h = Some native"
  shows "(ctx_mode c = OtherContext \<longrightarrow> call_toDataURL (patched h) c = native c) \<and>
         (ctx_mode c = NoContext \<longrightarrow>
            call_toDataURL (patched h) c =
              native (c\<lparr>ctx_mode := Context2D, fill_style := RGBA 0 0 0 0,
                         composite := SourceOver, clip := (\<lambda>p. True)\<rparr>)) \<and>
         (ctx_mode c = Context2D \<and> keeps_destination (composite c) \<longrightarrow>
            call_toDataURL (patched h) c = native (c\<lparr>fill_style := RGBA 0 0 0 0\<rparr>)) \<and>
         (ctx_mode c = Context2D \<and> \<not> keeps_destination (composite c) \<longrightarrow>
            call_toDataURL (patched h) c =
              native (c\<lparr>fill_style := RGBA 0 0 0 0,
                         bitmap := clear_clipped (clip c) (bitmap c)\<rparr>)) \<and>
         ((\<forall>c1 c2. bitmap c1 = bitmap c2 \<and> cwidth c1 = cwidth c2 \<and> cheight c1 = cheight c2 \<longrightarrow>
                    fst (native c1) = fst (native c2)) \<and>
          (ctx_mode c = Context2D \<longrightarrow> keeps_destination (composite c)) \<longrightarrow>
            fst (call_toDataURL (patched h) c) = fst (call_toDataURL h c))"
proof -
  have call: "call_toDataURL (patched h) c = native (touch_canvas c)"
    by (simp add: call_toDataURL_def patched_toDataURL assms wrap_toDataURL_def)
  have same: "ctx_mode c = Context2D \<longrightarrow> keeps_destination (composite c) \<Longrightarrow>
      bitmap (touch_canvas c) = bitmap c \<and> cwidth (touch_canvas c) = cwidth c \<and>
      cheight (touch_canvas c) = cheight c"
    by (cases "ctx_mode c") (simp_all add: touch_canvas_eq)
  have out: "(\<forall>c1 c2. bitmap c1 = bitmap c2 \<and> cwidth c1 = cwidth c2 \<and> cheight c1 = cheight c2 \<longrightarrow>
                    fst (native c1) = fst (native c2)) \<and>
          (ctx_mode c = Context2D \<longrightarrow> keeps_destination (composite c)) \<longrightarrow>
            fst (call_toDataURL (patched h) c) = fst (call_toDataURL h c)"
  proof (intro impI, elim conjE)
    assume enc: "\<forall>c1 c2. bitmap c1 = bitmap c2 \<and> cwidth c1 = cwidth c2 \<and> cheight c1 = cheight c2 \<longrightarrow>
                    fst (native c1) = fst (native c2)"
      and k: "ctx_mode c = Context2D \<longrightarrow> keeps_destination (composite c)"
    have "fst (native (touch_canvas c)) = fst (native c)"
      using enc same [OF k] by blast
    then show "fst (call_toDataURL (patched h) c) = fst (call_toDataURL h c)"
      by (simp add: call) (simp add: call_toDataURL_def assms)
  qed
  have 1: "ctx_mode c = OtherContext \<longrightarrow> call_toDataURL (patched h) c = native c"
    by (simp add: call touch_canvas_eq)
  have 2: "ctx_mode c = NoContext \<longrightarrow>
      call_toDataURL (patched h) c =
        native (c\<lparr>ctx_mode := Context2D, fill_style := RGBA 0 0 0 0,
                   composite := SourceOver, clip := (\<lambda>p. True)\<rparr>)"
    by (simp add: call touch_canvas_eq)
  have 3: "ctx_mode c = Context2D \<and> keeps_destination (composite c) \<longrightarrow>
      call_toDataURL (patched h) c = native (c\<lparr>fill_style := RGBA 0 0 0 0\<rparr>)"
    by (simp add: call touch_canvas_eq)
  have 4: "ctx_mode c = Context2D \<and> \<not> keeps_destination (composite c) \<longrightarrow>
      call_toDataURL (patched h) c =
        native (c\<lparr>fill_style := RGBA 0 0 0 0,
                   bitmap := clear_clipped (clip c) (bitmap c)\<rparr>)"
    by (simp add: call touch_canvas_eq)
  from 1 2 3 4 out show ?thesis by (intro conjI)
qed

theorem toDataURL_patched_output_witness:
  "toDataURL demo_host = Some (\<lambda>c. (Inr (map (\<lambda>b. char_of (unat b)) (bitmap c)), c)) \<and>
   fst (call_toDataURL (patched demo_host) demo_canvas) =
     Inr (map (\<lambda>b. char_of (unat b)) ([200, 100, 50, 255, 0, 0, 0, 255, 7, 8, 9, 255] :: u8 list)) \<and>
   fst (call_toDataURL (patched demo_host) (demo_canvas\<lparr>composite := Copy\<rparr>)) =
     Inr (map (\<lambda>b. char_of (unat b)) ([0, 0, 0, 0, 0, 0, 0, 0, 0, 0, 0, 0] :: u8 list))"
proof -
  have k: "ctx_mode demo_canvas = Context2D \<and> keeps_destination (composite demo_canvas)"
    by (simp add: demo_canvas_def)
  have nk: "ctx_mode (demo_canvas\<lparr>composite := Copy\<rparr>) = Context2D \<and>
      \<not> keeps_destination (composite (demo_canvas\<lparr>composite := Copy\<rparr>))"
    by (simp add: demo_canvas_def keeps_destination_def)
  have b: "bitmap demo_canvas = [200, 100, 50, 255, 0, 0, 0, 255, 7, 8, 9, 255]"
    and cl: "clip demo_canvas = (\<lambda>p. True)"
    by (simp_all add: demo_canvas_def)
  from toDataURL_patched_output [OF demo_toDataURL, of demo_canvas] k
  have "call_toDataURL (patched demo_host) demo_canvas =
      (Inr (map (\<lambda>b. char_of (unat b)) (bitmap demo_canvas)), demo_canvas\<lparr>fill_style := RGBA 0 0 0 0\<rparr>)"
    by simp
  then have 1: "fst (call_toDataURL (patched demo_host) demo_canvas) =
      Inr (map (\<lambda>b. char_of (unat b)) ([200, 100, 50, 255, 0, 0, 0, 255, 7, 8, 9, 255] :: u8 list))"
    by (simp only: b fst_conv)
  from toDataURL_patched_output [OF demo_toDataURL, of "demo_canvas\<lparr>composite := Copy\<rparr>"] nk
  have "call_toDataURL (patched demo_host) (demo_canvas\<lparr>composite := Copy\<rparr>) =
      (Inr (map (\<lambda>b. char_of (unat b)) (clear_clipped (clip demo_canvas) (bitmap demo_canvas))),
       demo_canvas\<lparr>composite := Copy, fill_style := RGBA 0 0 0 0,
         bitmap := clear_clipped (clip demo_canvas) (bitmap demo_canvas)\<rparr>)"
    by simp
  then have 2: "fst (call_toDataURL (patched demo_host) (demo_canvas\<lparr>composite := Copy\<rparr>)) =
      Inr (map (\<lambda>b. char_of (unat b)) ([0, 0, 0, 0, 0, 0, 0, 0, 0, 0, 0, 0] :: u8 list))"
    by (simp only: cl demo_clear fst_conv)
  show ?thesis
    using 1 2 demo_toDataURL by (intro conjI)
qed

subsection \<open>C8\<close>

text \<open>
  C8, as stated, at the byte 0: the value stored for a perturbed byte is the byte XOR
  \<open>0x11\<close>, which for 0 is 17, not within 1 of the original.
\<close>

theorem pixel_noise_magnitude_counterexample:
  "\<not> \<bar>int (unat (pixel_noise [0] ! 0)) - int (unat (0::u8))\<bar> \<le> 1"
proof -
  have "pixel_noise [0] = [17]" by code_simp
  then show ?thesis by simp
qed

text \<open>
  C8, amended. The XOR with \<open>0x11\<close> flips bit 0 and bit 4: every perturbed byte
  (index a multiple of 10) moves by exactly 15 or 17, so by at most 17 of 255; every
  other byte is unchanged.
\<close>

theorem pixel_noise_magnitude:
  assumes "j < length d"
  shows "(j mod 10 = 0 \<longrightarrow>
            \<bar>int (unat (pixel_noise d ! j)) - int (unat (d ! j))\<bar> = 15 \<or>
            \<bar>int (unat (pixel_noise d ! j)) - int (unat (d ! j))\<bar> = 17) \<and>
         (j mod 10 \<noteq> 0 \<longrightarrow> pixel_noise d ! j = d ! j) \<and>
         \<bar>int (unat (pixel_noise d ! j)) - int (unat (d ! j))\<bar> \<le> 17"
proof (cases "j mod 10 = 0")
  case True
  then have "pixel_noise d ! j = (d ! j) XOR 0x11"
    using assms by (simp add: nth_pixel_noise)
  moreover have "\<bar>int (unat ((d ! j) XOR 0x11)) - int (unat (d ! j))\<bar> = 15 \<or>
      \<bar>int (unat ((d ! j) XOR 0x11)) - int (unat (d ! j))\<bar> = 17"
    using xor_0x11_diff by blast
  ultimately show ?thesis using True by auto
next
  case False
  then have "pixel_noise d ! j = d ! j"
    using assms by (simp add: nth_pixel_noise)
  then show ?thesis using False by simp
qed

theorem pixel_noise_magnitude_witness:
  "(0::nat) < length [0::u8] \<and> \<bar>int (unat (pixel_noise [0] ! 0)) - int (unat (0::u8))\<bar> = 17"
proof -
  have e: "pixel_noise [0] = [17]" by code_simp
  have "(0::nat) < length [0::u8]" by simp
  from pixel_noise_magnitude [OF this] e show ?thesis by simp
qed

subsection \<open>C9\<close>

text \<open>
  C9, as stated, for the mimeType list: on a host whose live mimeType list is empty the
  patch activates (the navigator gets an own property \<open>mimeTypes\<close>), and what it
  installs is an empty array, not a non-empty synthetic list.
\<close>

theorem mimeTypes_empty_counterexample:
  "navigator_get demo_host ''mimeTypes'' = Inr (JArr []) \<and>
   navigator_own demo_host ''mimeTypes'' = None \<and>
   navigator_own (patched demo_host) ''mimeTypes'' = Some \<lparr>pval = JArr [], configurable = True\<rparr> \<and>
   navigator_get (patched demo_host) ''mimeTypes'' = Inr (JArr []) \<and>
   js_length (JArr []) = JNum 0"
proof -
  have "navigator_get (patched demo_host) ''mimeTypes'' = Inr (JArr [])"
    using demo_patched_mimeTypes
    by (auto simp: navigator_own_def navigator_get_def nav_get_def split: option.splits)
  then show ?thesis
    by (simp add: demo_navigator_reads demo_patched_mimeTypes)
qed

text \<open>
  C9, amended. The plugin patch activates only when the live plugin list is empty
  (length 0); when it activates and the property can be defined, it installs a fixed
  list of two PDF-plugin entries. The mimeType patch activates only when the live
  mimeType list is empty, and what it installs is an empty array. A live list that is
  not empty is left untouched, the navigator's own property included.
\<close>

theorem plugins_patch:
  assumes "navigator h = Some nav"
    and "navigator_get h ''plugins'' = Inr P"
    and "navigator_get h ''mimeTypes'' = Inr M"
  shows "navigator_get (patched h) ''plugins'' =
           Inr (if truthy P \<and> js_length P = JNum 0 \<and> definable nav ''plugins'' then pluginArray else P) \<and>
         navigator_get (patched h) ''mimeTypes'' =
           Inr (if truthy M \<and> js_length M = JNum 0 \<and> definable nav ''mimeTypes'' then JArr [] else M) \<and>
         (\<not> (truthy P \<and> js_length P = JNum 0) \<longrightarrow>
            navigator_own (patched h) ''plugins'' = navigator_own h ''plugins'') \<and>
         (\<not> (truthy M \<and> js_length M = JNum 0) \<longrightarrow>
            navigator_own (patched h) ''mimeTypes'' = navigator_own h ''mimeTypes'') \<and>
         js_length pluginArray = JNum 2 \<and> js_length (JArr []) = JNum 0"
proof -
  let ?pr = "map_option hide_webdriver (navigator_proto h)"
  let ?X = "userAgentData_fallback ?pr (hide_webdriver (identity_props nav))"
  have P: "nav_get (navigator_proto h) nav ''plugins'' = P"
    and M: "nav_get (navigator_proto h) nav ''mimeTypes'' = M"
    using assms by (simp_all add: navigator_get_def)
  have nav': "navigator (patched h) = Some (fake_plugins ?pr ?X)"
    by (simp add: patched_navigator assms(1))
  have pr': "navigator_proto (patched h) = ?pr"
    by (simp add: patched_navigator_proto assms(1))
  have gp: "nav_get ?pr ?X ''plugins'' = P"
    using nav_get_prepared [of "''plugins''" "navigator_proto h" nav] P by simp
  have gm: "nav_get ?pr ?X ''mimeTypes'' = M"
    using nav_get_prepared [of "''mimeTypes''" "navigator_proto h" nav] M by simp
  have op: "map_of (props ?X) ''plugins'' = map_of (props nav) ''plugins''"
    by (rule map_of_prepared) simp
  have om: "map_of (props ?X) ''mimeTypes'' = map_of (props nav) ''mimeTypes''"
    by (rule map_of_prepared) simp
  have g: "navigator_get (patched h) ''plugins'' = Inr (nav_get ?pr (fake_plugins ?pr ?X) ''plugins'')"
    "navigator_get (patched h) ''mimeTypes'' = Inr (nav_get ?pr (fake_plugins ?pr ?X) ''mimeTypes'')"
    by (simp_all add: navigator_get_def nav' pr')
  have 1: "navigator_get (patched h) ''plugins'' =
      Inr (if truthy P \<and> js_length P = JNum 0 \<and> definable nav ''plugins'' then pluginArray else P)"
    and 2: "navigator_get (patched h) ''mimeTypes'' =
      Inr (if truthy M \<and> js_length M = JNum 0 \<and> definable nav ''mimeTypes'' then JArr [] else M)"
    by (simp_all add: g fake_plugins_get gp gm Let_def)
  have 3: "\<not> (truthy P \<and> js_length P = JNum 0) \<longrightarrow>
      navigator_own (patched h) ''plugins'' = navigator_own h ''plugins''"
    by (simp add: navigator_own_def nav' assms(1) map_of_fake_plugins gp gm op Let_def)
  have 4: "\<not> (truthy M \<and> js_length M = JNum 0) \<longrightarrow>
      navigator_own (patched h) ''mimeTypes'' = navigator_own h ''mimeTypes''"
    by (simp add: navigator_own_def nav' assms(1) map_of_fake_plugins gp gm om Let_def)
  have 5: "js_length pluginArray = JNum 2 \<and> js_length (JArr []) = JNum 0"
    by (simp add: pluginArray_def)
  from 1 2 3 4 5 show ?thesis by blast
qed

theorem plugins_patch_witness:
  "navigator demo_host = Some \<lparr>props = [], extensible = True\<rparr> \<and>
   navigator_get demo_host ''plugins'' = Inr (JArr []) \<and>
   navigator_get demo_host ''mimeTypes'' = Inr (JArr []) \<and>
   navigator_get (patched demo_host) ''plugins'' = Inr pluginArray \<and>
   navigator_get (patched demo_host) ''mimeTypes'' = Inr (JArr [])"
  using plugins_patch [OF demo_navigator_reads(1) demo_navigator_reads(2) demo_navigator_reads(3)]
  by (simp add: demo_navigator_reads definable_def)

subsection \<open>C10\<close>

text \<open>
  C10 at a failing input: an engine whose \<open>getChannelData\<close> returns the buffer's own
  \<open>Float32Array\<close> (the Web Audio behaviour), a buffer whose channel holds the samples
  0 and 1/2, and two calls of the patched method. The wrapper writes the perturbed
  sample into the buffer's storage, so the first call returns \<open>0 + eps\<close> and the
  second \<open>0 + eps + eps\<close>. (This host adds the epsilon exactly; an engine stores the
  \<open>Float32\<close> roundings, about \<open>1.0e-7\<close> and \<open>2.0e-7\<close>, which differ as well.
  \<open>getChannelData_live_twice\<close> gives the two reads for any arithmetic: the second
  read is the arithmetic applied twice to the sample.)
\<close>

theorem getChannelData_accumulates:
  "call_getChannelData (patched demo_host) [7 \<mapsto> [0, 1 / 2]] 7 (JNum 0) =
     (Inr 7, [7 \<mapsto> [1 / 10000000, 1 / 2]]) \<and>
   call_getChannelData (patched demo_host) [7 \<mapsto> [1 / 10000000, 1 / 2]] 7 (JNum 0) =
     (Inr 7, [7 \<mapsto> [2 / 10000000, 1 / 2]])"
proof -
  have g: "getChannelData demo_host = Some (\<lambda>hp this ch. (Inr this, hp))"
    by (simp add: demo_host_def)
  have e: "f32_add_eps demo_host = (\<lambda>x. x + 1 / 10000000)"
    by (simp add: demo_host_def)
  show ?thesis
    using getChannelData_live_twice [OF g, of "[7 \<mapsto> [0, 1 / 2]]" 7 "[0, 1 / 2]" "JNum 0"]
    by (simp add: e)
qed


end
